theory Spec2Isabelle
  imports Main
begin

chapter \<open>The template engine of the \<^verbatim>\<open>ts\<close> library\<close>

text \<open>
  The repository holds several versions of one small templating library. All of them share
  the path resolver \<^verbatim>\<open>getNestedValue\<close> and the placeholder scanner \<^verbatim>\<open>/{{([^{}]+)}}/g\<close>. Three of
  them are modelled here:
  \<^item> \<^verbatim>\<open>ts-library.js\<close>, where \<^verbatim>\<open>ts.render\<close> substitutes placeholders and nothing is repeated;
  \<^item> the version headed \<^verbatim>\<open>Fixed templating system that properly handles nested ts-repeat\<close>,
    with \<^verbatim>\<open>processTemplate\<close>, \<^verbatim>\<open>processRepeats\<close> over the top-level repeats found by a tree walker
    and \<^verbatim>\<open>processSimplePlaceholders\<close>; it is called the version with top-level repeats below;
  \<^item> \<^verbatim>\<open>test.js\<close>, whose \<^verbatim>\<open>processTemplate\<close> substitutes first and then repeats with
    \<^verbatim>\<open>querySelectorAll\<close>; its functions carry the suffix \<open>_test\<close>.
\<close>

section \<open>Data values\<close>

text \<open>
  The engine receives data decoded from JSON. A value is null, a boolean, a number, a
  string, an array or an object. An integer-valued number of magnitude at most \<open>2\<^sup>5\<^sup>3\<close> is
  \<open>JNum\<close> of that integer: these are the integers a number holds exactly, and \<^verbatim>\<open>String\<close> prints them
  in decimal. Any other number is \<open>JNumText\<close> of the text \<^verbatim>\<open>String\<close> prints for it (\<^verbatim>\<open>1.5\<close>,
  \<^verbatim>\<open>1e+21\<close>), which is all the engine ever asks of a number but its truth value. An object is the
  list of its own keys with their values; \<^verbatim>\<open>undefined\<close> is \<open>None\<close> wherever a lookup may produce it.
  Strings are lists of 8-bit characters.

  A path can leave the data: \<^verbatim>\<open>part in current\<close> is true for the members an object or an
  array inherits, so \<^verbatim>\<open>getNestedValue({}, 'constructor')\<close> is a function and
  \<^verbatim>\<open>getNestedValue([], '__proto__')\<close> is \<^verbatim>\<open>Array.prototype\<close>. These values are \<open>JFunction\<close> of the
  function's name, \<open>JObjectPrototype\<close> and \<open>JArrayPrototype\<close>.
\<close>

datatype jsval =
    JNull
  | JBool bool
  | JNum int
  | JNumText string
  | JStr string
  | JArr "jsval list"
  | JObj "(string \<times> jsval) list"
  | JFunction string
  | JObjectPrototype
  | JArrayPrototype

text \<open>
  The values \<^verbatim>\<open>JSON.parse\<close> produces, as far as \<^verbatim>\<open>String\<close> accepts them: the numbers behind
  \<open>JNum\<close> are in the exact range, the text of another number is made of digits, a point, a
  sign and an exponent mark, the keys of an object are distinct, and no object has an own
  key \<^verbatim>\<open>toString\<close> (with one, \<^verbatim>\<open>String(value)\<close> throws a \<^verbatim>\<open>TypeError\<close>, since no decoded value can
  be called).
\<close>

fun json_value :: "jsval \<Rightarrow> bool" where
  "json_value (JNum n) = (\<bar>n\<bar> \<le> 2 ^ 53)"
| "json_value (JNumText t) = (t \<noteq> [] \<and> set t \<subseteq> set ''0123456789.e+-'')"
| "json_value (JArr xs) = (\<forall>x \<in> set xs. json_value x)"
| "json_value (JObj kvs) =
     (distinct (map fst kvs) \<and> ''toString'' \<notin> set (map fst kvs) \<and> (\<forall>x \<in> set (map snd kvs). json_value x))"
| "json_value (JFunction name) = False"
| "json_value JObjectPrototype = False"
| "json_value JArrayPrototype = False"
| "json_value _ = True"

subsection \<open>Decimal numerals\<close>

fun string_of_nat :: "nat \<Rightarrow> string" where
  "string_of_nat n =
     (if n < 10 then [char_of (48 + n)]
      else string_of_nat (n div 10) @ [char_of (48 + n mod 10)])"

declare string_of_nat.simps [simp del]

definition string_of_int :: "int \<Rightarrow> string" where
  "string_of_int i = (if i < 0 then CHR ''-'' # string_of_nat (nat (- i)) else string_of_nat (nat i))"

definition is_digit :: "char \<Rightarrow> bool" where
  "is_digit c = (48 \<le> (of_char c :: nat) \<and> (of_char c :: nat) \<le> 57)"

definition digits_value :: "string \<Rightarrow> nat" where
  "digits_value s = foldl (\<lambda>a c. 10 * a + ((of_char c :: nat) - 48)) 0 s"

text \<open>
  The own index keys of an array are the canonical decimal numerals: no sign, no leading
  zero (so \<^verbatim>\<open>"0"\<close> and \<^verbatim>\<open>"12"\<close> are keys, \<^verbatim>\<open>"00"\<close> and \<^verbatim>\<open>"+1"\<close> are not).
\<close>

definition array_index :: "string \<Rightarrow> nat option" where
  "array_index s =
     (if s \<noteq> [] \<and> list_all is_digit s \<and> (hd s \<noteq> CHR ''0'' \<or> length s = 1)
      then Some (digits_value s) else None)"

subsection \<open>\<^verbatim>\<open>String(value)\<close>\<close>

fun join_comma :: "string list \<Rightarrow> string" where
  "join_comma [] = []"
| "join_comma [s] = s"
| "join_comma (s # t # ss) = s @ CHR '','' # join_comma (t # ss)"

text \<open>
  \<^verbatim>\<open>String\<close> of an array joins the elements with commas, a null element giving the empty
  string; of an object it is the fixed text \<^verbatim>\<open>[object Object]\<close>. A built-in function is
  printed as V8 (Chrome, Node) prints it; other engines lay the same words out with other
  white space. \<^verbatim>\<open>Array.prototype\<close> is an empty array and prints as the empty string.
\<close>

fun js_String :: "jsval \<Rightarrow> string" where
  "js_String JNull = ''null''"
| "js_String (JBool b) = (if b then ''true'' else ''false'')"
| "js_String (JNum n) = string_of_int n"
| "js_String (JNumText t) = t"
| "js_String (JStr s) = s"
| "js_String (JArr xs) = join_comma (map (\<lambda>x. if x = JNull then [] else js_String x) xs)"
| "js_String (JObj kvs) = ''[object Object]''"
| "js_String (JFunction name) = ''function '' @ name @ ''() { [native code] }''"
| "js_String JObjectPrototype = ''[object Object]''"
| "js_String JArrayPrototype = []"

section \<open>Path resolution: \<^verbatim>\<open>getNestedValue\<close>\<close>

text \<open>\<^verbatim>\<open>path.split('.')\<close>: the empty path has the one segment \<^verbatim>\<open>""\<close>.\<close>

fun split_dot :: "string \<Rightarrow> string list" where
  "split_dot [] = [[]]"
| "split_dot (c # cs) =
     (if c = CHR ''.'' then [] # split_dot cs
      else (case split_dot cs of [] \<Rightarrow> [[c]] | p # ps \<Rightarrow> (c # p) # ps))"

text \<open>
  The members inherited from \<^verbatim>\<open>Object.prototype\<close> and \<^verbatim>\<open>Array.prototype\<close> in ECMAScript 2023
  (with its annex B). All of them are functions named as their key, but \<^verbatim>\<open>constructor\<close>, which
  is the function \<^verbatim>\<open>Object\<close> or \<^verbatim>\<open>Array\<close>, and \<^verbatim>\<open>__proto__\<close>, which yields the prototype.
\<close>

definition object_functions :: "string list" where
  "object_functions = [''__defineGetter__'', ''__defineSetter__'', ''hasOwnProperty'',
     ''__lookupGetter__'', ''__lookupSetter__'', ''isPrototypeOf'', ''propertyIsEnumerable'',
     ''toString'', ''valueOf'', ''toLocaleString'']"

definition array_functions :: "string list" where
  "array_functions = [''at'', ''concat'', ''copyWithin'', ''fill'', ''find'', ''findIndex'',
     ''findLast'', ''findLastIndex'', ''lastIndexOf'', ''pop'', ''push'', ''reverse'', ''shift'',
     ''unshift'', ''slice'', ''sort'', ''splice'', ''includes'', ''indexOf'', ''join'', ''keys'',
     ''entries'', ''values'', ''forEach'', ''filter'', ''flat'', ''flatMap'', ''map'', ''every'',
     ''some'', ''reduce'', ''reduceRight'', ''toReversed'', ''toSorted'', ''toSpliced'', ''with'',
     ''toLocaleString'', ''toString'']"

definition object_member :: "string \<Rightarrow> jsval option" where
  "object_member part =
     (if part = ''constructor'' then Some (JFunction ''Object'')
      else if part \<in> set object_functions then Some (JFunction part)
      else None)"

definition array_member :: "string \<Rightarrow> jsval option" where
  "array_member part =
     (if part = ''constructor'' then Some (JFunction ''Array'')
      else if part \<in> set array_functions then Some (JFunction part)
      else object_member part)"

text \<open>
  One step of the loop: \<^verbatim>\<open>current === null || typeof current !== 'object' || !(part in current)\<close>
  gives \<open>None\<close>; otherwise the step yields \<^verbatim>\<open>current[part]\<close>. An own key comes first; an array
  has its index keys and \<^verbatim>\<open>length\<close>; then come the inherited members. A function is not an
  object for \<^verbatim>\<open>typeof\<close>; the two prototypes are, and \<^verbatim>\<open>Object.prototype\<close> has the prototype null.
\<close>

fun get_property :: "jsval \<Rightarrow> string \<Rightarrow> jsval option" where
  "get_property (JObj kvs) part =
     (case map_of kvs part of
        Some v \<Rightarrow> Some v
      | None \<Rightarrow> if part = ''__proto__'' then Some JObjectPrototype else object_member part)"
| "get_property (JArr xs) part =
     (if part = ''length'' then Some (JNum (int (length xs)))
      else (case array_index part of
              Some i \<Rightarrow> if i < length xs then Some (xs ! i) else None
            | None \<Rightarrow> if part = ''__proto__'' then Some JArrayPrototype else array_member part))"
| "get_property JObjectPrototype part =
     (if part = ''__proto__'' then Some JNull else object_member part)"
| "get_property JArrayPrototype part =
     (if part = ''length'' then Some (JNum 0)
      else if part = ''__proto__'' then Some JObjectPrototype
      else array_member part)"
| "get_property _ part = None"

fun walk_parts :: "string list \<Rightarrow> jsval \<Rightarrow> jsval option" where
  "walk_parts [] current = Some current"
| "walk_parts (part # parts) current =
     (case get_property current part of
        None \<Rightarrow> None
      | Some v \<Rightarrow> walk_parts parts v)"

definition getNestedValue :: "jsval \<Rightarrow> string \<Rightarrow> jsval option" where
  "getNestedValue obj path = walk_parts (split_dot path) obj"

section \<open>Placeholder substitution\<close>

text \<open>
  White space as \<^verbatim>\<open>trim\<close> and the class \<^verbatim>\<open>\s\<close> know it, among 8-bit characters: tab, line
  feed, vertical tab, form feed, carriage return, space and no-break space.
\<close>

definition is_space :: "char \<Rightarrow> bool" where
  "is_space c = (c = CHR 0x09 \<or> c = CHR 0x0A \<or> c = CHR 0x0B \<or> c = CHR 0x0C \<or> c = CHR 0x0D
                 \<or> c = CHR 0x20 \<or> c = CHR 0xA0)"

definition trim :: "string \<Rightarrow> string" where
  "trim s = rev (dropWhile is_space (rev (dropWhile is_space s)))"

definition is_brace :: "char \<Rightarrow> bool" where
  "is_brace c = (c = CHR ''{'' \<or> c = CHR ''}'')"

text \<open>
  The regular expression \<^verbatim>\<open>/{{([^{}]+)}}/\<close> tried at the first character of a string; the
  result is the captured interior. The class \<^verbatim>\<open>[^{}]+\<close> takes the longest run of characters
  that are not braces, and no shorter run can be followed by \<^verbatim>\<open>}}\<close>, so there is nothing
  to backtrack over.
\<close>

fun match_placeholder_at :: "string \<Rightarrow> string option" where
  "match_placeholder_at (a # b # r) =
     (if a = CHR ''{'' \<and> b = CHR ''{'' \<and> takeWhile (\<lambda>c. \<not> is_brace c) r \<noteq> []
         \<and> take 2 (dropWhile (\<lambda>c. \<not> is_brace c) r) = ''}}''
      then Some (takeWhile (\<lambda>c. \<not> is_brace c) r) else None)"
| "match_placeholder_at _ = None"

text \<open>
  \<^verbatim>\<open>html.match(/{{([^{}]+)}}/g) || []\<close>: all matches from left to right, the search resuming
  behind each match.
\<close>

function match_placeholders :: "string \<Rightarrow> string list" where
  "match_placeholders [] = []"
| "match_placeholders (c # cs) =
     (case match_placeholder_at (c # cs) of
        None \<Rightarrow> match_placeholders cs
      | Some k \<Rightarrow> (''{{'' @ k @ ''}}'') # match_placeholders (drop (length k + 3) cs))"
  by pat_completeness auto
termination
  by (relation "measure length") auto

text \<open>
  \<^verbatim>\<open>String.prototype.replace\<close> with a string pattern replaces the first occurrence only, and
  reads the replacement text for the patterns \<^verbatim>\<open>$$\<close>, \<^verbatim>\<open>$&\<close>, \<^verbatim>\<open>$`\<close> and \<^verbatim>\<open>$'\<close> (a string
  pattern has no capture groups, so \<^verbatim>\<open>$1\<close> stays as it is).
\<close>

fun find_first :: "string \<Rightarrow> string \<Rightarrow> (string \<times> string) option" where
  "find_first pat [] = (if pat = [] then Some ([], []) else None)"
| "find_first pat (c # cs) =
     (if take (length pat) (c # cs) = pat then Some ([], drop (length pat) (c # cs))
      else (case find_first pat cs of None \<Rightarrow> None | Some (b, a) \<Rightarrow> Some (c # b, a)))"

fun get_substitution :: "string \<Rightarrow> string \<Rightarrow> string \<Rightarrow> string \<Rightarrow> string" where
  "get_substitution m b a [] = []"
| "get_substitution m b a [c] = [c]"
| "get_substitution m b a (c # d # r) =
     (if c = CHR ''$'' \<and> d = CHR ''$'' then CHR ''$'' # get_substitution m b a r
      else if c = CHR ''$'' \<and> d = CHR ''&'' then m @ get_substitution m b a r
      else if c = CHR ''$'' \<and> d = CHR 0x60 then b @ get_substitution m b a r
      else if c = CHR ''$'' \<and> d = CHR 0x27 then a @ get_substitution m b a r
      else c # get_substitution m b a (d # r))"

definition js_replace :: "string \<Rightarrow> string \<Rightarrow> string \<Rightarrow> string" where
  "js_replace s pat repl =
     (case find_first pat s of
        None \<Rightarrow> s
      | Some (b, a) \<Rightarrow> b @ get_substitution pat b a repl @ a)"

text \<open>\<^verbatim>\<open>placeholder.slice(2, -2)\<close>.\<close>

definition slice_2_2 :: "string \<Rightarrow> string" where
  "slice_2_2 p = take (length p - 4) (drop 2 p)"

text \<open>
  The text a placeholder is replaced by in the versions that always replace:
  \<^verbatim>\<open>value !== undefined ? String(value) : ''\<close>.
\<close>

definition substitute_text :: "jsval \<Rightarrow> string \<Rightarrow> string" where
  "substitute_text data key =
     (case getNestedValue data key of None \<Rightarrow> [] | Some value \<Rightarrow> js_String value)"

text \<open>
  \<^verbatim>\<open>processSimplePlaceholders\<close> (the version with top-level repeats): the list of tokens is
  taken once from the incoming markup; each token in turn replaces the first occurrence of
  its own text in the current string.
\<close>

definition replace_placeholder :: "jsval \<Rightarrow> string \<Rightarrow> string \<Rightarrow> string" where
  "replace_placeholder data html placeholder =
     js_replace html placeholder (substitute_text data (trim (slice_2_2 placeholder)))"

definition processSimplePlaceholders :: "string \<Rightarrow> jsval \<Rightarrow> string" where
  "processSimplePlaceholders html data =
     foldl (replace_placeholder data) html (match_placeholders html)"

text \<open>
  The body of \<^verbatim>\<open>ts.render\<close> in \<^verbatim>\<open>ts-library.js\<close>, from the element's markup to the markup
  written back: the same loop, with the key taken untrimmed.
\<close>

definition render_placeholder :: "jsval \<Rightarrow> string \<Rightarrow> string \<Rightarrow> string" where
  "render_placeholder data html placeholder =
     js_replace html placeholder (substitute_text data (slice_2_2 placeholder))"

definition ts_render :: "string \<Rightarrow> jsval \<Rightarrow> string" where
  "ts_render html data = foldl (render_placeholder data) html (match_placeholders html)"

text \<open>The text of the placeholder with interior \<open>k\<close>, as the data model writes it.\<close>

definition placeholder_token :: "string \<Rightarrow> string" where
  "placeholder_token k = ''{{'' @ k @ ''}}''"

text \<open>
  Markup in which every brace belongs to a placeholder: a sequence of literal text without
  braces and of placeholders with a non-empty interior without braces.
\<close>

datatype segment = Literal string | Placeholder string

fun segment_markup :: "segment \<Rightarrow> string" where
  "segment_markup (Literal t) = t"
| "segment_markup (Placeholder k) = placeholder_token k"

fun segment_ok :: "segment \<Rightarrow> bool" where
  "segment_ok (Literal t) = list_all (\<lambda>c. \<not> is_brace c) t"
| "segment_ok (Placeholder k) = (k \<noteq> [] \<and> list_all (\<lambda>c. \<not> is_brace c) k)"

definition markup_of :: "segment list \<Rightarrow> string" where
  "markup_of segs = concat (map segment_markup segs)"

text \<open>What each segment should become: a literal itself, a placeholder its value's text.\<close>

fun segment_output :: "jsval \<Rightarrow> segment \<Rightarrow> string" where
  "segment_output data (Literal t) = t"
| "segment_output data (Placeholder k) = substitute_text data (trim k)"

text \<open>
  A replacement text that \<^verbatim>\<open>replace\<close> inserts as it is and that cannot open a placeholder:
  no \<^verbatim>\<open>{\<close> and none of the patterns \<^verbatim>\<open>$$\<close>, \<^verbatim>\<open>$&\<close>, \<^verbatim>\<open>$`\<close>, \<^verbatim>\<open>$'\<close>.
\<close>

fun has_dollar_pattern :: "string \<Rightarrow> bool" where
  "has_dollar_pattern (c # d # r) =
     (c = CHR ''$'' \<and> (d = CHR ''$'' \<or> d = CHR ''&'' \<or> d = CHR 0x60 \<or> d = CHR 0x27)
      \<or> has_dollar_pattern (d # r))"
| "has_dollar_pattern _ = False"

definition inert_text :: "string \<Rightarrow> bool" where
  "inert_text v = (CHR ''{'' \<notin> set v \<and> \<not> has_dollar_pattern v)"

fun segment_inert :: "jsval \<Rightarrow> segment \<Rightarrow> bool" where
  "segment_inert data (Literal t) = True"
| "segment_inert data (Placeholder k) = inert_text (substitute_text data (trim k))"

text \<open>
  The values for which one pass gives each placeholder its own value: no value has a
  replacement pattern, and a value with an opening brace belongs to the last placeholder of
  the markup, after which no token is looked for any more.
\<close>

fun is_literal :: "segment \<Rightarrow> bool" where
  "is_literal (Literal t) = True"
| "is_literal (Placeholder k) = False"

fun single_pass_values :: "jsval \<Rightarrow> segment list \<Rightarrow> bool" where
  "single_pass_values data [] = True"
| "single_pass_values data (Literal t # segs) = single_pass_values data segs"
| "single_pass_values data (Placeholder k # segs) =
     (\<not> has_dollar_pattern (substitute_text data (trim k))
      \<and> (CHR ''{'' \<notin> set (substitute_text data (trim k)) \<or> list_all is_literal segs)
      \<and> single_pass_values data segs)"

section \<open>Markup trees\<close>

text \<open>
  The engine hands markup to the browser (\<^verbatim>\<open>innerHTML\<close>, \<^verbatim>\<open>outerHTML\<close>) and works on the tree it
  gets back. A tree node is a text node or an element with its tag name, its attributes in
  order and its children in order.
\<close>

datatype node = Text string | Element string "(string \<times> string) list" "node list"

subsection \<open>Serialisation: reading \<^verbatim>\<open>innerHTML\<close> and \<^verbatim>\<open>outerHTML\<close>\<close>

text \<open>
  The fragment serialisation of the HTML standard: text escapes \<^verbatim>\<open>&\<close>, no-break space, \<^verbatim>\<open><\<close> and
  \<^verbatim>\<open>>\<close>, unless its parent is an element whose text is raw; an attribute value is written in
  double quotes and escapes \<^verbatim>\<open>&\<close>, no-break space and the double quote (the standard has added
  \<^verbatim>\<open><\<close> and \<^verbatim>\<open>>\<close> to these in 2025; the older rule is kept here); a void element has no content
  and no end tag.
\<close>

fun escape_text :: "string \<Rightarrow> string" where
  "escape_text [] = []"
| "escape_text (c # cs) =
     (if c = CHR ''&'' then ''&amp;'' @ escape_text cs
      else if c = CHR 0xA0 then ''&nbsp;'' @ escape_text cs
      else if c = CHR ''<'' then ''&lt;'' @ escape_text cs
      else if c = CHR ''>'' then ''&gt;'' @ escape_text cs
      else c # escape_text cs)"

fun escape_attr :: "string \<Rightarrow> string" where
  "escape_attr [] = []"
| "escape_attr (c # cs) =
     (if c = CHR ''&'' then ''&amp;'' @ escape_attr cs
      else if c = CHR 0xA0 then ''&nbsp;'' @ escape_attr cs
      else if c = CHR 0x22 then ''&quot;'' @ escape_attr cs
      else c # escape_attr cs)"

definition void_elements :: "string list" where
  "void_elements = [''area'', ''base'', ''br'', ''col'', ''embed'', ''hr'', ''img'', ''input'',
                    ''link'', ''meta'', ''source'', ''track'', ''wbr'',
                    ''basefont'', ''bgsound'', ''frame'', ''keygen'', ''param'']"

definition raw_text_elements :: "string list" where
  "raw_text_elements = [''style'', ''script'', ''xmp'', ''iframe'', ''noembed'', ''noframes'',
                        ''plaintext'', ''noscript'']"

definition serialize_attr :: "string \<times> string \<Rightarrow> string" where
  "serialize_attr a = CHR '' '' # fst a @ CHR ''='' # CHR 0x22 # escape_attr (snd a) @ [CHR 0x22]"

text \<open>
  \<open>children_html parent kids\<close> is \<^verbatim>\<open>innerHTML\<close> read on an element with the tag \<open>parent\<close>;
  \<open>innerHTML\<close> is the reading on the \<^verbatim>\<open>div\<close> that every version creates to hold the markup.
\<close>

fun outerHTML :: "node \<Rightarrow> string" and children_html :: "string \<Rightarrow> node list \<Rightarrow> string" where
  "outerHTML (Text s) = escape_text s"
| "outerHTML (Element tag attrs kids) =
     CHR ''<'' # tag @ concat (map serialize_attr attrs) @ CHR ''>'' #
       (if tag \<in> set void_elements then [] else children_html tag kids @ ''</'' @ tag @ ''>'')"
| "children_html parent [] = []"
| "children_html parent (Text s # ns) =
     (if parent \<in> set raw_text_elements then s else escape_text s) @ children_html parent ns"
| "children_html parent (Element tag attrs kids # ns) =
     outerHTML (Element tag attrs kids) @ children_html parent ns"

definition innerHTML :: "node list \<Rightarrow> string" where
  "innerHTML ns = children_html ''div'' ns"

subsection \<open>Parsing: assigning to \<^verbatim>\<open>innerHTML\<close> and \<^verbatim>\<open>outerHTML\<close>\<close>

text \<open>
  The browser's fragment parser, for the markup the engine is written for: text, start
  tags with attributes (double-quoted, single-quoted, unquoted or without a value), end
  tags and void elements, with line breaks normalised to line feeds, tag and attribute names
  folded to lower case and the five character references that serialisation writes. An end tag
  closes the nearest open element of its name and is ignored when there is none; the end of the
  input closes what is open; a tag cut off by the end of the input is dropped.

  This is a model of a part of the standard's parser and no more. It agrees with a browser on
  well-nested markup of elements that the standard's tree construction treats like any other
  (\<^verbatim>\<open>div\<close>, \<^verbatim>\<open>span\<close>, \<^verbatim>\<open>section\<close>, custom elements, and lists, headings and paragraphs that
  are closed where they end). It does not model comments, doctypes, the raw text of
  \<^verbatim>\<open>script\<close> and \<^verbatim>\<open>style\<close>, the contents of \<^verbatim>\<open>template\<close>, other character references, or the
  repairs the standard makes for misnested or context-bound elements (a table gets its
  \<^verbatim>\<open>tbody\<close>, a paragraph is closed by a block). Every statement below that is made for all
  markup is therefore made over the parsed tree, not over the string; the parser is applied
  to concrete markup inside its range only.
\<close>

fun normalize_newlines :: "string \<Rightarrow> string" where
  "normalize_newlines [] = []"
| "normalize_newlines [c] = (if c = CHR 0x0D then [CHR 0x0A] else [c])"
| "normalize_newlines (c # d # cs) =
     (if c = CHR 0x0D \<and> d = CHR 0x0A then CHR 0x0A # normalize_newlines cs
      else if c = CHR 0x0D then CHR 0x0A # normalize_newlines (d # cs)
      else c # normalize_newlines (d # cs))"

function decode_refs :: "string \<Rightarrow> string" where
  "decode_refs [] = []"
| "decode_refs (c # cs) =
     (if c = CHR ''&'' \<and> take 4 cs = ''amp;'' then CHR ''&'' # decode_refs (drop 4 cs)
      else if c = CHR ''&'' \<and> take 3 cs = ''lt;'' then CHR ''<'' # decode_refs (drop 3 cs)
      else if c = CHR ''&'' \<and> take 3 cs = ''gt;'' then CHR ''>'' # decode_refs (drop 3 cs)
      else if c = CHR ''&'' \<and> take 5 cs = ''quot;'' then CHR 0x22 # decode_refs (drop 5 cs)
      else if c = CHR ''&'' \<and> take 5 cs = ''nbsp;'' then CHR 0xA0 # decode_refs (drop 5 cs)
      else c # decode_refs cs)"
  by pat_completeness auto
termination
  by (relation "measure length") auto

datatype token = TChars string | TStart string "(string \<times> string) list" | TEnd string

definition is_alpha :: "char \<Rightarrow> bool" where
  "is_alpha c = ((65 \<le> (of_char c :: nat) \<and> (of_char c :: nat) \<le> 90)
               \<or> (97 \<le> (of_char c :: nat) \<and> (of_char c :: nat) \<le> 122))"

definition to_lower :: "char \<Rightarrow> char" where
  "to_lower c = (if 65 \<le> (of_char c :: nat) \<and> (of_char c :: nat) \<le> 90
                 then char_of ((of_char c :: nat) + 32) else c)"

definition is_tag_space :: "char \<Rightarrow> bool" where
  "is_tag_space c = (c = CHR 0x09 \<or> c = CHR 0x0A \<or> c = CHR 0x0C \<or> c = CHR 0x0D \<or> c = CHR 0x20)"

text \<open>A second attribute of a name already present is dropped.\<close>

definition add_attr :: "(string \<times> string) list \<Rightarrow> string \<Rightarrow> string \<Rightarrow> (string \<times> string) list" where
  "add_attr attrs name v = (if name \<in> set (map fst attrs) then attrs else attrs @ [(name, decode_refs v)])"

definition emit_tag :: "bool \<Rightarrow> string \<Rightarrow> (string \<times> string) list \<Rightarrow> token" where
  "emit_tag closing name attrs = (if closing then TEnd name else TStart name attrs)"

definition emit_chars :: "string \<Rightarrow> token list" where
  "emit_chars acc = (if acc = [] then [] else [TChars acc])"

text \<open>
  The tokenizer reads one character at a time. Its states carry what has been read: the
  pending text; for a tag, whether it is an end tag, its name and its attributes so far;
  for an attribute, its name and value so far.
\<close>

datatype lex_state =
    Data string
  | TagOpen string
  | EndTagOpen string
  | TagName bool string
  | BeforeAttrName bool string "(string \<times> string) list"
  | AttrName bool string "(string \<times> string) list" string
  | AfterAttrName bool string "(string \<times> string) list" string
  | BeforeAttrValue bool string "(string \<times> string) list" string
  | AttrValueQuoted char bool string "(string \<times> string) list" string string
  | AttrValueUnquoted bool string "(string \<times> string) list" string string

fun tokenize :: "lex_state \<Rightarrow> string \<Rightarrow> token list" where
  "tokenize (Data acc) [] = emit_chars acc"
| "tokenize (TagOpen acc) [] = emit_chars (acc @ ''<'')"
| "tokenize (EndTagOpen acc) [] = emit_chars (acc @ ''</'')"
| "tokenize _ [] = []"
| "tokenize (Data acc) (c # cs) =
     (if c = CHR ''<'' then tokenize (TagOpen acc) cs else tokenize (Data (acc @ [c])) cs)"
| "tokenize (TagOpen acc) (c # cs) =
     (if is_alpha c then emit_chars acc @ tokenize (TagName False [to_lower c]) cs
      else if c = CHR ''/'' then tokenize (EndTagOpen acc) cs
      else if c = CHR ''<'' then tokenize (TagOpen (acc @ ''<'')) cs
      else tokenize (Data (acc @ [CHR ''<'', c])) cs)"
| "tokenize (EndTagOpen acc) (c # cs) =
     (if is_alpha c then emit_chars acc @ tokenize (TagName True [to_lower c]) cs
      else if c = CHR ''>'' then tokenize (Data acc) cs
      else if c = CHR ''<'' then tokenize (TagOpen (acc @ ''</'')) cs
      else tokenize (Data (acc @ [CHR ''<'', CHR ''/'', c])) cs)"
| "tokenize (TagName e n) (c # cs) =
     (if is_tag_space c \<or> c = CHR ''/'' then tokenize (BeforeAttrName e n []) cs
      else if c = CHR ''>'' then emit_tag e n [] # tokenize (Data []) cs
      else tokenize (TagName e (n @ [to_lower c])) cs)"
| "tokenize (BeforeAttrName e n as) (c # cs) =
     (if is_tag_space c \<or> c = CHR ''/'' then tokenize (BeforeAttrName e n as) cs
      else if c = CHR ''>'' then emit_tag e n as # tokenize (Data []) cs
      else tokenize (AttrName e n as [to_lower c]) cs)"
| "tokenize (AttrName e n as a) (c # cs) =
     (if is_tag_space c then tokenize (AfterAttrName e n as a) cs
      else if c = CHR ''/'' then tokenize (BeforeAttrName e n (add_attr as a [])) cs
      else if c = CHR ''='' then tokenize (BeforeAttrValue e n as a) cs
      else if c = CHR ''>'' then emit_tag e n (add_attr as a []) # tokenize (Data []) cs
      else tokenize (AttrName e n as (a @ [to_lower c])) cs)"
| "tokenize (AfterAttrName e n as a) (c # cs) =
     (if is_tag_space c then tokenize (AfterAttrName e n as a) cs
      else if c = CHR ''/'' then tokenize (BeforeAttrName e n (add_attr as a [])) cs
      else if c = CHR ''='' then tokenize (BeforeAttrValue e n as a) cs
      else if c = CHR ''>'' then emit_tag e n (add_attr as a []) # tokenize (Data []) cs
      else tokenize (AttrName e n (add_attr as a []) [to_lower c]) cs)"
| "tokenize (BeforeAttrValue e n as a) (c # cs) =
     (if is_tag_space c then tokenize (BeforeAttrValue e n as a) cs
      else if c = CHR 0x22 \<or> c = CHR 0x27 then tokenize (AttrValueQuoted c e n as a []) cs
      else if c = CHR ''>'' then emit_tag e n (add_attr as a []) # tokenize (Data []) cs
      else tokenize (AttrValueUnquoted e n as a [c]) cs)"
| "tokenize (AttrValueQuoted q e n as a v) (c # cs) =
     (if c = q then tokenize (BeforeAttrName e n (add_attr as a v)) cs
      else tokenize (AttrValueQuoted q e n as a (v @ [c])) cs)"
| "tokenize (AttrValueUnquoted e n as a v) (c # cs) =
     (if is_tag_space c then tokenize (BeforeAttrName e n (add_attr as a v)) cs
      else if c = CHR ''>'' then emit_tag e n (add_attr as a v) # tokenize (Data []) cs
      else tokenize (AttrValueUnquoted e n as a (v @ [c])) cs)"

text \<open>
  Tree construction keeps the stack of open elements, innermost first, each with the
  children it has so far, and the finished nodes of the top level.
\<close>

type_synonym open_element = "string \<times> (string \<times> string) list \<times> node list"

fun append_node :: "node \<Rightarrow> open_element list \<Rightarrow> node list \<Rightarrow> open_element list \<times> node list" where
  "append_node n [] roots = ([], roots @ [n])"
| "append_node n ((tag, attrs, kids) # stack) roots = ((tag, attrs, kids @ [n]) # stack, roots)"

fun close_all :: "open_element list \<Rightarrow> node list \<Rightarrow> node list" where
  "close_all [] roots = roots"
| "close_all [(tag, attrs, kids)] roots = roots @ [Element tag attrs kids]"
| "close_all ((tag, attrs, kids) # (tag', attrs', kids') # stack) roots =
     close_all ((tag', attrs', kids' @ [Element tag attrs kids]) # stack) roots"

fun close_until :: "string \<Rightarrow> open_element list \<Rightarrow> node list \<Rightarrow> open_element list \<times> node list" where
  "close_until name [] roots = ([], roots)"
| "close_until name [(tag, attrs, kids)] roots = ([], roots @ [Element tag attrs kids])"
| "close_until name ((tag, attrs, kids) # (tag', attrs', kids') # stack) roots =
     (if tag = name then ((tag', attrs', kids' @ [Element tag attrs kids]) # stack, roots)
      else close_until name ((tag', attrs', kids' @ [Element tag attrs kids]) # stack) roots)"

fun build_tree :: "token list \<Rightarrow> open_element list \<Rightarrow> node list \<Rightarrow> node list" where
  "build_tree [] stack roots = close_all stack roots"
| "build_tree (TChars s # ts) stack roots =
     (case append_node (Text (decode_refs s)) stack roots of
        (stack', roots') \<Rightarrow> build_tree ts stack' roots')"
| "build_tree (TStart name attrs # ts) stack roots =
     (if name \<in> set void_elements
      then (case append_node (Element name attrs []) stack roots of
              (stack', roots') \<Rightarrow> build_tree ts stack' roots')
      else build_tree ts ((name, attrs, []) # stack) roots)"
| "build_tree (TEnd name # ts) stack roots =
     (if name \<in> set (map fst stack)
      then (case close_until name stack roots of (stack', roots') \<Rightarrow> build_tree ts stack' roots')
      else build_tree ts stack roots)"

definition parse_html :: "string \<Rightarrow> node list" where
  "parse_html s = build_tree (tokenize (Data []) (normalize_newlines s)) [] []"

section \<open>The template engine with top-level repeats\<close>

text \<open>
  The version headed \<^verbatim>\<open>Fixed templating system that properly handles nested ts-repeat\<close>.
\<close>

text \<open>
  The regular expression \<^verbatim>\<open>/\s*ts-repeat="[^"]*"/\<close> tried at the first character of a string;
  the result is the length of the match. Both starred parts take the longest run they can and
  a shorter run cannot be followed by what comes next, so there is nothing to backtrack over.
\<close>

definition match_repeat_attr_at :: "string \<Rightarrow> nat option" where
  "match_repeat_attr_at s =
     (let r = dropWhile is_space s; v = takeWhile (\<lambda>c. c \<noteq> CHR 0x22) (drop 11 r)
      in if take 11 r = ''ts-repeat='' @ [CHR 0x22] \<and> length v < length (drop 11 r)
         then Some (length (takeWhile is_space s) + 11 + length v + 1) else None)"

text \<open>\<^verbatim>\<open>outerHTML.replace(/\s*ts-repeat="[^"]*"/g, '')\<close>: every match is deleted.\<close>

function strip_repeat_attrs :: "string \<Rightarrow> string" where
  "strip_repeat_attrs [] = []"
| "strip_repeat_attrs (c # cs) =
     (case match_repeat_attr_at (c # cs) of
        None \<Rightarrow> c # strip_repeat_attrs cs
      | Some n \<Rightarrow> strip_repeat_attrs (drop (n - 1) cs))"
  by pat_completeness auto
termination
  by (relation "measure length") auto

text \<open>The text handed to \<^verbatim>\<open>console.warn\<close>.\<close>

definition repeat_warning :: "string \<Rightarrow> string" where
  "repeat_warning arrayPath =
     ''Collection at path '' @ [CHR 0x27] @ arrayPath @ [CHR 0x27] @ '' is not an array or doesn''
       @ [CHR 0x27] @ ''t exist''"

text \<open>
  An array reached by a path lies inside the value the path starts from: a step to an own key
  goes to a smaller value, and a step to an inherited member goes to a function or a prototype,
  from which no path leads to an array of the data. The recursion of the expander follows the
  data downwards, which is why it ends.
\<close>

fun barren :: "jsval \<Rightarrow> bool" where
  "barren (JArr xs) = False"
| "barren (JObj kvs) = False"
| "barren _ = True"

lemma split_dot_nonempty: "split_dot s \<noteq> []"
  by (induction s) (auto split: list.splits)

lemma map_of_size: "map_of kvs k = Some v \<Longrightarrow> size v < Suc (size_list (size_prod (\<lambda>_. 0) size) kvs)"
  by (induction kvs) (auto split: if_splits)

lemma object_member_barren: "object_member part = Some v \<Longrightarrow> barren v"
  by (auto simp: object_member_def split: if_splits)

lemma array_member_barren: "array_member part = Some v \<Longrightarrow> barren v"
  by (auto simp: array_member_def split: if_splits dest: object_member_barren)

lemma get_property_size:
  assumes "get_property current part = Some v"
  shows "size v < size current \<or> barren v"
proof (cases current)
  case (JArr xs)
  show ?thesis
  proof (cases "part = ''length''")
    case True
    with assms JArr show ?thesis by auto
  next
    case False
    show ?thesis
    proof (cases "array_index part")
      case None
      with assms JArr False show ?thesis
        by (auto split: if_splits dest: array_member_barren)
    next
      case (Some i)
      with assms JArr False have "i < length xs" "v = xs ! i"
        by (auto split: if_splits)
      then have "v \<in> set xs" by simp
      then have "size v \<le> size_list size xs" by (simp add: size_list_estimation')
      with JArr show ?thesis by simp
    qed
  qed
next
  case (JObj kvs)
  show ?thesis
  proof (cases "map_of kvs part")
    case None
    with assms JObj show ?thesis
      by (auto split: if_splits dest: object_member_barren)
  next
    case (Some w)
    with assms JObj show ?thesis using map_of_size [of kvs part v] by simp
  qed
next
  case JObjectPrototype
  with assms show ?thesis by (auto split: if_splits dest: object_member_barren)
next
  case JArrayPrototype
  with assms show ?thesis by (auto split: if_splits dest: array_member_barren)
qed (use assms in auto)

lemma get_property_barren: "barren current \<Longrightarrow> get_property current part = Some v \<Longrightarrow> barren v"
  by (cases current) (auto split: if_splits dest: object_member_barren array_member_barren)

lemma walk_parts_barren: "barren current \<Longrightarrow> walk_parts parts current = Some v \<Longrightarrow> barren v"
proof (induction parts arbitrary: current)
  case Nil
  then show ?case by simp
next
  case (Cons p parts)
  then obtain w where w: "get_property current p = Some w" "walk_parts parts w = Some v"
    by (auto split: option.splits)
  from Cons.IH [OF get_property_barren [OF Cons.prems(1) w(1)] w(2)] show ?case .
qed

lemma walk_parts_size: "walk_parts parts current = Some v \<Longrightarrow> size v \<le> size current \<or> barren v"
proof (induction parts arbitrary: current)
  case Nil
  then show ?case by simp
next
  case (Cons p parts)
  then obtain w where w: "get_property current p = Some w" "walk_parts parts w = Some v"
    by (auto split: option.splits)
  from get_property_size [OF w(1)] show ?case
  proof
    assume "size w < size current"
    with Cons.IH [OF w(2)] show ?thesis by auto
  next
    assume "barren w"
    from walk_parts_barren [OF this w(2)] show ?thesis by simp
  qed
qed

lemma getNestedValue_size:
  assumes "getNestedValue data path = Some v"
  shows "size v < size data \<or> barren v"
proof -
  obtain p ps where s: "split_dot path = p # ps"
    using split_dot_nonempty [of path] by (cases "split_dot path") auto
  with assms obtain w where w: "get_property data p = Some w" "walk_parts ps w = Some v"
    by (auto simp: getNestedValue_def split: option.splits)
  from get_property_size [OF w(1)] show ?thesis
  proof
    assume "size w < size data"
    with walk_parts_size [OF w(2)] show ?thesis by auto
  next
    assume "barren w"
    from walk_parts_barren [OF this w(2)] show ?thesis by simp
  qed
qed

lemma getNestedValue_array_size:
  "getNestedValue data path = Some (JArr xs) \<Longrightarrow> size_list size xs < size data"
  using getNestedValue_size [of data path "JArr xs"] by auto

text \<open>
  \<^verbatim>\<open>processRepeats(container, data)\<close>. The tree walker accepts the elements with the directive
  that have no ancestor with the directive below the container; these are disjoint subtrees,
  handled in document order, so the pass is a map over the tree that stops at each directive.
  The children of a \<^verbatim>\<open>template\<close> element in this model are its contents, which the walker
  does not enter. An element whose collection is not an array is removed with a warning;
  otherwise it is replaced by the nodes parsed from the concatenated markup of its items
  (\<^verbatim>\<open>Array.isArray\<close> holds of \<^verbatim>\<open>Array.prototype\<close> too, which has no items). The result is the new
  children of the container and the warnings written to the console, in order.

  For one item, the item template (the element's markup with every directive attribute text
  deleted) is parsed, expanded with the item as data, serialised, and its placeholders are
  substituted with the item as data.
\<close>

function processRepeats :: "node list \<Rightarrow> jsval \<Rightarrow> node list \<times> string list"
  and expand_node :: "node \<Rightarrow> jsval \<Rightarrow> node list \<times> string list"
  and expand_items :: "string \<Rightarrow> jsval list \<Rightarrow> string list \<times> string list"
where
  "processRepeats [] data = ([], [])"
| "processRepeats (n # ns) data =
     (case expand_node n data of
        (nodes, warnings) \<Rightarrow>
          (case processRepeats ns data of
             (nodes', warnings') \<Rightarrow> (nodes @ nodes', warnings @ warnings')))"
| "expand_node (Text s) data = ([Text s], [])"
| "expand_node (Element tag attrs kids) data =
     (case map_of attrs ''ts-repeat'' of
        None \<Rightarrow>
          if tag = ''template'' then ([Element tag attrs kids], [])
          else (case processRepeats kids data of
                  (kids', warnings) \<Rightarrow> ([Element tag attrs kids'], warnings))
      | Some arrayPath \<Rightarrow>
          (case getNestedValue data arrayPath of
             Some (JArr collection) \<Rightarrow>
               (case expand_items (strip_repeat_attrs (outerHTML (Element tag attrs kids))) collection of
                  (itemsHtml, warnings) \<Rightarrow> (parse_html (concat itemsHtml), warnings))
           | Some JArrayPrototype \<Rightarrow> ([], [])
           | _ \<Rightarrow> ([], [repeat_warning arrayPath])))"
| "expand_items itemTemplate [] = ([], [])"
| "expand_items itemTemplate (item # items) =
     (case processRepeats (parse_html itemTemplate) item of
        (nodes, warnings) \<Rightarrow>
          (case expand_items itemTemplate items of
             (itemsHtml, warnings') \<Rightarrow>
               (processSimplePlaceholders (innerHTML nodes) item # itemsHtml, warnings @ warnings')))"
  by pat_completeness auto
termination
  by (relation "measures
    [\<lambda>x. case x of Inl (ns, data) \<Rightarrow> size data
                 | Inr (Inl (n, data)) \<Rightarrow> size data
                 | Inr (Inr (t, items)) \<Rightarrow> size_list size items,
     \<lambda>x. case x of Inl (ns, data) \<Rightarrow> size_list size ns
                 | Inr (Inl (n, data)) \<Rightarrow> size n
                 | Inr (Inr (t, items)) \<Rightarrow> 0]")
    (auto dest: getNestedValue_array_size)

text \<open>
  \<^verbatim>\<open>processTemplate(template, data)\<close>: the markup returned, and the warnings.
  \<open>processTemplate_tree\<close> is the function from the point where the template has been assigned
  to \<^verbatim>\<open>tempDiv.innerHTML\<close>, on the children \<^verbatim>\<open>tempDiv\<close> then has.
\<close>

definition processTemplate_tree :: "node list \<Rightarrow> jsval \<Rightarrow> string \<times> string list" where
  "processTemplate_tree nodes data =
     (case processRepeats nodes data of
        (nodes', warnings) \<Rightarrow> (processSimplePlaceholders (innerHTML nodes') data, warnings))"

definition processTemplate :: "string \<Rightarrow> jsval \<Rightarrow> string \<times> string list" where
  "processTemplate template data = processTemplate_tree (parse_html template) data"

section \<open>The template engine of \<^verbatim>\<open>test.js\<close>\<close>

text \<open>
  This version builds a regular expression from each placeholder,
  \<^verbatim>\<open>new RegExp(placeholder.replace(/[{}]/g, '\\$&'), 'g')\<close>: the braces are escaped and the
  interior is read as a pattern. An interior of ordinary characters matches itself, and a dot
  matches any character but a line break. An interior with another character that is special
  in a pattern (backslash, \<^verbatim>\<open>^ $ * + ? ( ) [ ] |\<close>) is outside this model: the constructor may
  throw, or the pattern may be valid and match something else than the token. The model does
  not follow the code there: \<open>None\<close> stands for a run that leaves the model, never for a
  particular behaviour of the code, and every statement about this version is made where the
  result is \<open>Some\<close>.
\<close>

datatype atom = Lit char | AnyChar

definition regex_meta :: "char \<Rightarrow> bool" where
  "regex_meta c = (c \<in> set [CHR 0x5C, CHR ''^'', CHR ''$'', CHR ''*'', CHR ''+'', CHR ''?'',
                              CHR ''('', CHR '')'', CHR ''['', CHR '']'', CHR ''|''])"

definition placeholder_regex :: "string \<Rightarrow> atom list option" where
  "placeholder_regex placeholder =
     (if list_ex regex_meta placeholder then None
      else Some (map (\<lambda>c. if c = CHR ''.'' then AnyChar else Lit c) placeholder))"

text \<open>The pattern tried at the first character of a string.\<close>

fun atoms_match :: "atom list \<Rightarrow> string \<Rightarrow> bool" where
  "atoms_match [] s = True"
| "atoms_match (a # as) [] = False"
| "atoms_match (Lit x # as) (c # cs) = (c = x \<and> atoms_match as cs)"
| "atoms_match (AnyChar # as) (c # cs) = (c \<noteq> CHR 0x0A \<and> c \<noteq> CHR 0x0D \<and> atoms_match as cs)"

text \<open>
  \<^verbatim>\<open>html.replace(regex, text)\<close> with the global flag: every match from left to right is replaced,
  the search resuming behind each match; the replacement text is read for the patterns
  \<^verbatim>\<open>$$\<close>, \<^verbatim>\<open>$&\<close>, \<^verbatim>\<open>$`\<close> and \<^verbatim>\<open>$'\<close>, which refer to the string searched.
\<close>

function regex_replace_all :: "atom list \<Rightarrow> string \<Rightarrow> string \<Rightarrow> string \<Rightarrow> string" where
  "regex_replace_all pat repl left [] = []"
| "regex_replace_all pat repl left (c # cs) =
     (if pat \<noteq> [] \<and> atoms_match pat (c # cs)
      then get_substitution (take (length pat) (c # cs)) left (drop (length pat) (c # cs)) repl
             @ regex_replace_all pat repl (left @ take (length pat) (c # cs)) (drop (length pat - 1) cs)
      else c # regex_replace_all pat repl (left @ [c]) cs)"
  by pat_completeness auto
termination
  by (relation "measure (\<lambda>(pat, repl, left, s). length s)") auto

text \<open>
  The placeholder loop of this version, on the children of the element with the tag \<open>parent\<close>
  (\<^verbatim>\<open>tempDiv\<close>, or the copy of a repeated element): the tokens are taken once from the serialised
  children; for each token whose key is defined, the children are serialised, every match of
  the token's pattern is replaced by \<^verbatim>\<open>String(value)\<close>, and the result is parsed again. A token
  whose key is undefined is left alone.
\<close>

definition replace_defined_step :: "string \<Rightarrow> jsval \<Rightarrow> node list option \<Rightarrow> string \<Rightarrow> node list option" where
  "replace_defined_step parent data state placeholder =
     (case state of
        None \<Rightarrow> None
      | Some nodes \<Rightarrow>
          (case getNestedValue data (trim (slice_2_2 placeholder)) of
             None \<Rightarrow> Some nodes
           | Some value \<Rightarrow>
               (case placeholder_regex placeholder of
                  None \<Rightarrow> None
                | Some pat \<Rightarrow>
                    Some (parse_html (regex_replace_all pat (js_String value) [] (children_html parent nodes))))))"

definition replace_defined :: "string \<Rightarrow> jsval \<Rightarrow> node list \<Rightarrow> node list option" where
  "replace_defined parent data nodes =
     foldl (replace_defined_step parent data) (Some nodes) (match_placeholders (children_html parent nodes))"

text \<open>\<^verbatim>\<open>getNestedValue(contextData, repeatKey) || []\<close>.\<close>

fun is_falsy :: "jsval \<Rightarrow> bool" where
  "is_falsy JNull = True"
| "is_falsy (JBool b) = (\<not> b)"
| "is_falsy (JNum n) = (n = 0)"
| "is_falsy (JStr s) = (s = [])"
| "is_falsy _ = False"

definition repeat_data :: "jsval \<Rightarrow> string \<Rightarrow> jsval" where
  "repeat_data contextData repeatKey =
     (case getNestedValue contextData repeatKey of
        None \<Rightarrow> JArr []
      | Some v \<Rightarrow> if is_falsy v then JArr [] else v)"

text \<open>\<^verbatim>\<open>firstElementChild\<close> and \<^verbatim>\<open>removeAttribute\<close>.\<close>

fun first_element :: "node list \<Rightarrow> node option" where
  "first_element [] = None"
| "first_element (Text s # ns) = first_element ns"
| "first_element (Element tag attrs kids # ns) = Some (Element tag attrs kids)"

definition remove_attr :: "string \<Rightarrow> (string \<times> string) list \<Rightarrow> (string \<times> string) list" where
  "remove_attr name attrs = filter (\<lambda>a. fst a \<noteq> name) attrs"

text \<open>
  \<^verbatim>\<open>processRepeats(contextElement, contextData)\<close> of this version. \<^verbatim>\<open>querySelectorAll\<close> lists every
  element with the directive below the context element, in document order, before anything is
  changed. An element of the list that lies outside every other element of the list is replaced
  in the tree by the copies made for its items (or by nothing). An element of the list that
  lies inside another one is handled after its ancestor has left the tree; it is processed in
  the same way, against the same data, inside the detached subtree, so it changes nothing in
  the result but must itself run through (\<open>detached_repeats\<close>). The children of a \<^verbatim>\<open>template\<close>
  element in this model are its contents, where \<^verbatim>\<open>querySelectorAll\<close> finds nothing.

  For one item, the element's markup is parsed, its first element loses the directive, the
  placeholders of its children that are defined in the item are replaced, and the repeats
  among its children are processed with the item as data.
\<close>

lemma repeat_data_size:
  "repeat_data d k = JArr (i # is) \<Longrightarrow> size_list size (i # is) < size d"
  using getNestedValue_array_size [of d k "i # is"]
  by (auto simp: repeat_data_def split: option.splits if_splits)

function processRepeats_test :: "node list \<Rightarrow> jsval \<Rightarrow> node list option"
  and replace_repeat :: "node \<Rightarrow> jsval \<Rightarrow> node list option"
  and repeat_items :: "node \<Rightarrow> jsval list \<Rightarrow> node list option"
  and detached_repeats :: "node list \<Rightarrow> jsval \<Rightarrow> bool"
where
  "processRepeats_test [] contextData = Some []"
| "processRepeats_test (Text s # ns) contextData =
     (case processRepeats_test ns contextData of None \<Rightarrow> None | Some ns' \<Rightarrow> Some (Text s # ns'))"
| "processRepeats_test (Element tag attrs kids # ns) contextData =
     (case map_of attrs ''ts-repeat'' of
        None \<Rightarrow>
          (case (if tag = ''template'' then Some kids else processRepeats_test kids contextData) of
             None \<Rightarrow> None
           | Some kids' \<Rightarrow>
               (case processRepeats_test ns contextData of
                  None \<Rightarrow> None
                | Some ns' \<Rightarrow> Some (Element tag attrs kids' # ns')))
      | Some repeatKey \<Rightarrow>
          (case replace_repeat (Element tag attrs kids) contextData of
             None \<Rightarrow> None
           | Some fragment \<Rightarrow>
               if tag = ''template'' \<or> detached_repeats kids contextData
               then (case processRepeats_test ns contextData of
                       None \<Rightarrow> None
                     | Some ns' \<Rightarrow> Some (fragment @ ns'))
               else None))"
| "replace_repeat (Text s) contextData = Some []"
| "replace_repeat (Element tag attrs kids) contextData =
     (case map_of attrs ''ts-repeat'' of
        None \<Rightarrow> Some []
      | Some repeatKey \<Rightarrow>
          (case repeat_data contextData repeatKey of
             JArr (itemData # items) \<Rightarrow> repeat_items (Element tag attrs kids) (itemData # items)
           | _ \<Rightarrow> Some []))"
| "repeat_items repeatElement [] = Some []"
| "repeat_items repeatElement (itemData # items) =
     (case first_element (parse_html (outerHTML repeatElement)) of
        Some (Element tag attrs kids) \<Rightarrow>
          (case replace_defined tag itemData kids of
             None \<Rightarrow> None
           | Some kids' \<Rightarrow>
               (case (if tag = ''template'' then Some kids' else processRepeats_test kids' itemData) of
                  None \<Rightarrow> None
                | Some kids'' \<Rightarrow>
                    (case repeat_items repeatElement items of
                       None \<Rightarrow> None
                     | Some rest \<Rightarrow> Some (Element tag (remove_attr ''ts-repeat'' attrs) kids'' # rest))))
      | _ \<Rightarrow> repeat_items repeatElement items)"
| "detached_repeats [] contextData = True"
| "detached_repeats (Text s # ns) contextData = detached_repeats ns contextData"
| "detached_repeats (Element tag attrs kids # ns) contextData =
     (replace_repeat (Element tag attrs kids) contextData \<noteq> None
      \<and> (tag = ''template'' \<or> detached_repeats kids contextData) \<and> detached_repeats ns contextData)"
  by pat_completeness auto
termination
  by (relation "measures
    [\<lambda>x. case x of Inl (Inl (ns, d)) \<Rightarrow> size d
                 | Inl (Inr (n, d)) \<Rightarrow> size d
                 | Inr (Inl (n, items)) \<Rightarrow> size_list size items
                 | Inr (Inr (ns, d)) \<Rightarrow> size d,
     \<lambda>x. case x of Inl (Inl (ns, d)) \<Rightarrow> 2 * size_list size ns
                 | Inl (Inr (n, d)) \<Rightarrow> 2 * size n
                 | Inr (Inl (n, items)) \<Rightarrow> 0
                 | Inr (Inr (ns, d)) \<Rightarrow> 2 * size_list size ns]")
    (auto dest: repeat_data_size)

text \<open>
  The last step moves \<^verbatim>\<open>ts-src\<close> to \<^verbatim>\<open>src\<close>. Assigning \<^verbatim>\<open>element.src\<close> sets the attribute on the
  elements that reflect it and an ordinary property, invisible in the markup, on the others.
\<close>

definition src_elements :: "string list" where
  "src_elements = [''img'', ''script'', ''iframe'', ''embed'', ''source'', ''track'', ''input'',
                   ''audio'', ''video'', ''frame'']"

definition set_src :: "string \<Rightarrow> string \<Rightarrow> (string \<times> string) list \<Rightarrow> (string \<times> string) list" where
  "set_src tag v attrs =
     (if tag \<notin> set src_elements then attrs
      else if ''src'' \<in> set (map fst attrs) then map (\<lambda>a. if fst a = ''src'' then (''src'', v) else a) attrs
      else attrs @ [(''src'', v)])"

fun move_ts_src :: "node \<Rightarrow> node" where
  "move_ts_src (Text s) = Text s"
| "move_ts_src (Element tag attrs kids) =
     (let kids' = (if tag = ''template'' then kids else map move_ts_src kids)
      in case map_of attrs ''ts-src'' of
           None \<Rightarrow> Element tag attrs kids'
         | Some srcValue \<Rightarrow>
             if srcValue = [] then Element tag attrs kids'
             else Element tag (remove_attr ''ts-src'' (set_src tag srcValue attrs)) kids')"

text \<open>
  \<^verbatim>\<open>processTemplate(template, data)\<close> of this version. \<open>processTemplate_test_tree\<close> is the function
  from the point where the template has been assigned to \<^verbatim>\<open>tempDiv.innerHTML\<close>, on the children
  \<^verbatim>\<open>tempDiv\<close> then has, up to the tree that is serialised at the end.
\<close>

definition processTemplate_test_tree :: "node list \<Rightarrow> jsval \<Rightarrow> node list option" where
  "processTemplate_test_tree nodes data =
     (case replace_defined ''div'' data nodes of
        None \<Rightarrow> None
      | Some nodes' \<Rightarrow>
          (case processRepeats_test nodes' data of
             None \<Rightarrow> None
           | Some nodes'' \<Rightarrow> Some (map move_ts_src nodes'')))"

definition processTemplate_test :: "string \<Rightarrow> jsval \<Rightarrow> string option" where
  "processTemplate_test template data =
     (case processTemplate_test_tree (parse_html template) data of
        None \<Rightarrow> None
      | Some nodes \<Rightarrow> Some (innerHTML nodes))"

section \<open>Trees without directives\<close>

text \<open>
  A tree in which \<^verbatim>\<open>querySelectorAll('[ts-repeat]')\<close> finds nothing, and one in which
  \<^verbatim>\<open>querySelectorAll('[ts-src]')\<close> finds nothing.
\<close>

fun directive_free :: "node \<Rightarrow> bool" where
  "directive_free (Text s) = True"
| "directive_free (Element tag attrs kids) =
     (map_of attrs ''ts-repeat'' = None \<and> list_all directive_free kids)"

text \<open>
  A tree in which no element outside the contents of a \<^verbatim>\<open>template\<close> element has the directive:
  the elements \<^verbatim>\<open>querySelectorAll('[ts-repeat]')\<close> does not list are those inside such contents.
\<close>

fun live_directive_free :: "node \<Rightarrow> bool" where
  "live_directive_free (Text s) = True"
| "live_directive_free (Element tag attrs kids) =
     (map_of attrs ''ts-repeat'' = None \<and> (tag = ''template'' \<or> list_all live_directive_free kids))"

fun ts_src_free :: "node \<Rightarrow> bool" where
  "ts_src_free (Text s) = True"
| "ts_src_free (Element tag attrs kids) =
     (map_of attrs ''ts-src'' = None \<and> list_all ts_src_free kids)"

section \<open>Facts about path resolution\<close>

lemma string_of_nat_digits: "list_all is_digit (string_of_nat n)"
proof (induction n rule: string_of_nat.induct)
  case (1 n)
  have d: "is_digit (char_of (48 + k))" if "k < 10" for k :: nat
    using that by (simp add: is_digit_def)
  show ?case
  proof (cases "n < 10")
    case True
    then show ?thesis by (simp add: string_of_nat.simps [of n] d)
  next
    case False
    with 1 show ?thesis by (simp add: string_of_nat.simps [of n] d)
  qed
qed

lemma string_of_nat_nonempty: "string_of_nat n \<noteq> []"
  by (simp add: string_of_nat.simps [of n])

lemma digits_value_snoc:
  "digits_value (s @ [c]) = 10 * digits_value s + ((of_char c :: nat) - 48)"
  by (simp add: digits_value_def)

lemma digits_value_string_of_nat: "digits_value (string_of_nat n) = n"
proof (induction n rule: string_of_nat.induct)
  case (1 n)
  show ?case
  proof (cases "n < 10")
    case True
    then show ?thesis by (simp add: string_of_nat.simps [of n] digits_value_def)
  next
    case False
    then have "digits_value (string_of_nat n) = 10 * (n div 10) + ((48 + n mod 10) mod 256 - 48)"
      using 1 by (simp add: string_of_nat.simps [of n] digits_value_snoc)
    also have "\<dots> = n" by simp
    finally show ?thesis .
  qed
qed

lemma hd_string_of_nat: "hd (string_of_nat n) = CHR ''0'' \<Longrightarrow> n = 0"
proof (induction n rule: string_of_nat.induct)
  case (1 n)
  show ?case
  proof (cases "n < 10")
    case True
    have "of_char (hd (string_of_nat n)) = (48 + n :: nat)"
      using True by (simp add: string_of_nat.simps [of n])
    with "1.prems" show ?thesis by simp
  next
    case False
    then have "hd (string_of_nat n) = hd (string_of_nat (n div 10))"
      by (simp add: string_of_nat.simps [of n] string_of_nat_nonempty)
    with 1 False have "n div 10 = 0" by simp
    with False show ?thesis by simp
  qed
qed

lemma array_index_string_of_nat: "array_index (string_of_nat n) = Some n"
proof -
  have "hd (string_of_nat n) \<noteq> CHR ''0'' \<or> length (string_of_nat n) = 1"
  proof (cases "n = 0")
    case True
    then show ?thesis by (simp add: string_of_nat.simps [of 0])
  next
    case False
    then show ?thesis using hd_string_of_nat by blast
  qed
  then show ?thesis
    by (simp add: array_index_def string_of_nat_nonempty string_of_nat_digits
        digits_value_string_of_nat)
qed

lemma string_of_nat_not_length: "string_of_nat n \<noteq> ''length''"
proof
  assume "string_of_nat n = ''length''"
  then have "list_all is_digit ''length''" using string_of_nat_digits [of n] by simp
  then show False by (simp add: is_digit_def)
qed

lemma split_dot_no_dot:
  "CHR ''.'' \<notin> set s \<Longrightarrow> split_dot (s @ CHR ''.'' # rest) = s # split_dot rest"
  by (induction s) (auto split: list.splits simp: split_dot_nonempty)

lemma split_dot_no_dot_end: "CHR ''.'' \<notin> set s \<Longrightarrow> split_dot s = [s]"
  by (induction s) (auto split: list.splits)

lemma string_of_nat_no_dot: "CHR ''.'' \<notin> set (string_of_nat n)"
proof
  assume "CHR ''.'' \<in> set (string_of_nat n)"
  then have "is_digit CHR ''.''"
    using string_of_nat_digits [of n] by (simp add: list_all_iff)
  then show False by (simp add: is_digit_def)
qed

text \<open>
  C9. An array is an object-shaped value for the resolver: a segment that is the decimal
  index of an element descends into that element instead of short-circuiting to Absent.
  With the array \<open>xs\<close> stored under the key \<open>k\<close> of an object and \<open>i\<close> an index of \<open>xs\<close>, the
  path \<open>k.i\<close> resolves to the element \<open>xs ! i\<close>, and the path \<open>k.i.rest\<close> continues the walk
  inside that element; in particular \<^verbatim>\<open>items.0\<close> resolves to the first element of \<^verbatim>\<open>items\<close>.
\<close>

theorem getNestedValue_array_index:
  assumes "i < length xs" and "CHR ''.'' \<notin> set k" and "map_of kvs k = Some (JArr xs)"
  shows "getNestedValue (JArr xs) (string_of_nat i) = Some (xs ! i)
       \<and> getNestedValue (JArr xs) (string_of_nat i @ CHR ''.'' # rest) = getNestedValue (xs ! i) rest
       \<and> getNestedValue (JObj kvs) (k @ CHR ''.'' # string_of_nat i) = Some (xs ! i)
       \<and> getNestedValue (JObj [(''items'', JArr (x # ys))]) ''items.0'' = Some x"
proof -
  have step: "get_property (JArr xs) (string_of_nat i) = Some (xs ! i)"
    using assms(1) by (simp add: array_index_string_of_nat string_of_nat_not_length)
  have a: "getNestedValue (JArr xs) (string_of_nat i) = Some (xs ! i)"
    by (simp add: getNestedValue_def split_dot_no_dot_end string_of_nat_no_dot step
        del: get_property.simps)
  have b: "getNestedValue (JArr xs) (string_of_nat i @ CHR ''.'' # rest) = getNestedValue (xs ! i) rest"
    by (simp add: getNestedValue_def split_dot_no_dot string_of_nat_no_dot step
        del: get_property.simps)
  have c: "getNestedValue (JObj kvs) (k @ CHR ''.'' # string_of_nat i) = Some (xs ! i)"
  proof -
    have "split_dot (k @ CHR ''.'' # string_of_nat i) = [k, string_of_nat i]"
      using assms(2) by (simp add: split_dot_no_dot split_dot_no_dot_end string_of_nat_no_dot)
    moreover have "walk_parts [k, string_of_nat i] (JObj kvs) = Some (xs ! i)"
      using assms(3) step by (simp del: get_property.simps(2))
    ultimately show ?thesis by (simp add: getNestedValue_def)
  qed
  have d: "getNestedValue (JObj [(''items'', JArr (x # ys))]) ''items.0'' = Some x"
    by (simp add: getNestedValue_def array_index_def is_digit_def digits_value_def)
  from a b c d show ?thesis by blast
qed

theorem getNestedValue_array_index_witness:
  "getNestedValue (JObj [(''items'', JArr [JStr ''a'', JStr ''b''])]) (''items'' @ CHR ''.'' # string_of_nat 1)
     = Some (JStr ''b'')"
  using getNestedValue_array_index [of 1 "[JStr ''a'', JStr ''b'']" "''items''"
      "[(''items'', JArr [JStr ''a'', JStr ''b''])]"]
  by simp

section \<open>Facts about the placeholder scanner and the replacement\<close>

lemma match_placeholder_at_Some:
  "match_placeholder_at s = Some k \<Longrightarrow>
     k \<noteq> [] \<and> (\<forall>c\<in>set k. \<not> is_brace c) \<and> (\<exists>r. s = ''{{'' @ k @ ''}}'' @ r)"
proof (cases s rule: match_placeholder_at.cases)
  case (1 a b r)
  assume m: "match_placeholder_at s = Some k"
  let ?P = "\<lambda>c. \<not> is_brace c"
  from m 1 have k: "k = takeWhile ?P r" and ne: "k \<noteq> []" and ab: "a = CHR ''{''" "b = CHR ''{''"
    and t: "take 2 (dropWhile ?P r) = ''}}''"
    by (auto split: if_splits)
  have "r = k @ dropWhile ?P r" using k by simp
  moreover from t have "dropWhile ?P r = ''}}'' @ drop 2 (dropWhile ?P r)"
    by (metis append_take_drop_id)
  ultimately have "s = ''{{'' @ k @ ''}}'' @ drop 2 (dropWhile ?P r)"
    using 1 ab by simp
  moreover have "\<forall>c\<in>set k. ?P c" unfolding k by (auto dest: set_takeWhileD)
  ultimately show ?thesis using ne by blast
qed auto

lemma match_placeholders_form:
  "p \<in> set (match_placeholders s) \<Longrightarrow>
     \<exists>k. p = ''{{'' @ k @ ''}}'' \<and> k \<noteq> [] \<and> (\<forall>c\<in>set k. \<not> is_brace c)"
proof (induction s rule: match_placeholders.induct)
  case 1
  then show ?case by simp
next
  case (2 c cs)
  show ?case
  proof (cases "match_placeholder_at (c # cs)")
    case None
    with 2 show ?thesis by simp
  next
    case (Some k)
    with "2.prems" have "p = ''{{'' @ k @ ''}}'' \<or> p \<in> set (match_placeholders (drop (length k + 3) cs))"
      by simp
    then show ?thesis
    proof
      assume "p = ''{{'' @ k @ ''}}''"
      with match_placeholder_at_Some [OF Some] show ?thesis by blast
    next
      assume "p \<in> set (match_placeholders (drop (length k + 3) cs))"
      with "2.IH"(2) [OF Some] show ?thesis .
    qed
  qed
qed

lemma match_placeholder_at_token:
  assumes "k \<noteq> []" and "\<forall>c\<in>set k. \<not> is_brace c"
  shows "match_placeholder_at (placeholder_token k @ r) = Some k"
proof -
  let ?P = "\<lambda>c. \<not> is_brace c"
  have tw: "takeWhile ?P (k @ ''}}'' @ r) = k"
    using assms(2) by (simp add: takeWhile_append2 is_brace_def)
  have dw: "dropWhile ?P (k @ ''}}'' @ r) = ''}}'' @ r"
    using assms(2) by (simp add: dropWhile_append2 is_brace_def)
  show ?thesis using assms(1) tw dw by (simp add: placeholder_token_def)
qed

lemma placeholder_token_Cons: "placeholder_token k @ r = CHR ''{'' # (CHR ''{'' # k @ ''}}'' @ r)"
  by (simp add: placeholder_token_def)

lemma match_placeholders_token:
  assumes "k \<noteq> []" and "\<forall>c\<in>set k. \<not> is_brace c"
  shows "match_placeholders (placeholder_token k @ r) = placeholder_token k # match_placeholders r"
proof -
  let ?cs = "CHR ''{'' # k @ ''}}'' @ r"
  have m: "match_placeholder_at (CHR ''{'' # ?cs) = Some k"
    using match_placeholder_at_token [OF assms, of r] by (simp only: placeholder_token_Cons)
  have "drop (length k + 2) (k @ ''}}'' @ r) = r" by simp
  then have d: "drop (length k + 3) ?cs = r"
    by (simp add: drop_Cons')
  have "match_placeholders (CHR ''{'' # ?cs)
          = (''{{'' @ k @ ''}}'') # match_placeholders (drop (length k + 3) ?cs)"
    by (simp only: match_placeholders.simps m option.case)
  then show ?thesis
    by (simp only: d placeholder_token_Cons) (simp add: placeholder_token_def)
qed

lemma find_first_here:
  assumes "pat = c0 # pat'" and "c0 \<notin> set pre"
  shows "find_first pat (pre @ pat @ r) = Some (pre, r)"
  using assms(2)
proof (induction pre)
  case Nil
  show ?case using assms(1) by simp
next
  case (Cons a pre)
  then have "a \<noteq> c0" by auto
  then have "take (length pat) (a # pre @ pat @ r) \<noteq> pat"
    using assms(1) by auto
  with Cons show ?case by simp
qed

lemma slice_2_2_token: "slice_2_2 (placeholder_token k) = k"
  by (simp add: slice_2_2_def placeholder_token_def)

lemma match_placeholder_at_not_open:
  "CHR ''{'' \<noteq> c \<Longrightarrow> match_placeholder_at (c # s) = None"
  by (cases s) auto

lemma match_placeholders_no_open:
  "CHR ''{'' \<notin> set t \<Longrightarrow> match_placeholders (t @ s) = match_placeholders s"
  by (induction t) (simp_all add: match_placeholder_at_not_open)

lemma match_placeholders_no_open_end:
  "CHR ''{'' \<notin> set t \<Longrightarrow> match_placeholders t = []"
  using match_placeholders_no_open [of t "[]"] by simp

lemma get_substitution_inert:
  "\<not> has_dollar_pattern repl \<Longrightarrow> get_substitution m b a repl = repl"
  by (induction m b a repl rule: get_substitution.induct) auto

lemma js_replace_first:
  assumes "pat = c0 # pat'" and "c0 \<notin> set pre" and "\<not> has_dollar_pattern repl"
  shows "js_replace (pre @ pat @ r) pat repl = pre @ repl @ r"
  by (simp add: js_replace_def find_first_here [OF assms(1,2)] get_substitution_inert [OF assms(3)])

lemma replace_placeholder_first:
  assumes "CHR ''{'' \<notin> set pre"
    and "\<not> has_dollar_pattern (substitute_text data (trim k))"
  shows "replace_placeholder data (pre @ placeholder_token k @ r) (placeholder_token k)
           = pre @ substitute_text data (trim k) @ r"
proof -
  have p: "placeholder_token k = CHR ''{'' # (''{'' @ k @ ''}}'')"
    by (simp add: placeholder_token_def)
  show ?thesis
    unfolding replace_placeholder_def slice_2_2_token
    by (rule js_replace_first [OF p assms])
qed

lemma markup_of_literals:
  assumes "list_all segment_ok segs" and "list_all is_literal segs"
  shows "CHR ''{'' \<notin> set (markup_of segs) \<and> concat (map (segment_output data) segs) = markup_of segs"
  using assms
proof (induction segs)
  case Nil
  then show ?case by (simp add: markup_of_def)
next
  case (Cons s segs)
  then show ?case
    by (cases s) (auto simp: markup_of_def list_all_iff is_brace_def)
qed

lemma segment_inert_single_pass:
  "list_all (segment_inert data) segs \<Longrightarrow> single_pass_values data segs"
  by (induction data segs rule: single_pass_values.induct) (simp_all add: inert_text_def)

lemma substitute_segments:
  assumes "list_all segment_ok segs" and "single_pass_values data segs"
    and "CHR ''{'' \<notin> set pre"
  shows "foldl (replace_placeholder data) (pre @ markup_of segs) (match_placeholders (markup_of segs))
           = pre @ concat (map (segment_output data) segs)"
  using assms
proof (induction segs arbitrary: pre)
  case Nil
  then show ?case by (simp add: markup_of_def)
next
  case (Cons s segs)
  have ok: "list_all segment_ok segs" using Cons.prems(1) by simp
  have pass: "single_pass_values data segs" using Cons.prems(2) by (cases s) simp_all
  show ?case
  proof (cases s)
    case (Literal t)
    then have t: "CHR ''{'' \<notin> set t"
      using Cons.prems(1) by (auto simp: list_all_iff is_brace_def)
    have m: "markup_of (Literal t # segs) = t @ markup_of segs"
      by (simp add: markup_of_def)
    have "CHR ''{'' \<notin> set (pre @ t)" using t Cons.prems(3) by simp
    from Cons.IH [OF ok pass this] show ?thesis
      using Literal by (simp add: m match_placeholders_no_open [OF t])
  next
    case (Placeholder k)
    then have k: "k \<noteq> []" "\<forall>c\<in>set k. \<not> is_brace c"
      using Cons.prems(1) by (auto simp: list_all_iff)
    have v: "\<not> has_dollar_pattern (substitute_text data (trim k))"
      and last: "CHR ''{'' \<notin> set (substitute_text data (trim k)) \<or> list_all is_literal segs"
      using Cons.prems(2) Placeholder by simp_all
    have m: "markup_of (Placeholder k # segs) = placeholder_token k @ markup_of segs"
      by (simp add: markup_of_def)
    from last show ?thesis
    proof
      assume "CHR ''{'' \<notin> set (substitute_text data (trim k))"
      then have "CHR ''{'' \<notin> set (pre @ substitute_text data (trim k))"
        using Cons.prems(3) by simp
      from Cons.IH [OF ok pass this] show ?thesis
        using Placeholder
        by (simp add: m match_placeholders_token [OF k]
            replace_placeholder_first [OF Cons.prems(3) v])
    next
      assume "list_all is_literal segs"
      from markup_of_literals [OF ok this, of data]
      have n: "match_placeholders (markup_of segs) = []"
        and c: "concat (map (segment_output data) segs) = markup_of segs"
        by (simp_all add: match_placeholders_no_open_end)
      show ?thesis
        using Placeholder
        by (simp add: m match_placeholders_token [OF k] n c
            replace_placeholder_first [OF Cons.prems(3) v])
    qed
  qed
qed

lemma segments_output_no_open:
  assumes "list_all segment_ok segs" and "list_all (segment_inert data) segs"
  shows "CHR ''{'' \<notin> set (concat (map (segment_output data) segs))"
  using assms
proof (induction segs)
  case Nil
  then show ?case by simp
next
  case (Cons s segs)
  then show ?case
    by (cases s) (auto simp: list_all_iff is_brace_def inert_text_def)
qed

lemma match_placeholder_at_second:
  "CHR ''{'' \<noteq> c \<Longrightarrow> match_placeholder_at (a # c # s) = None"
  by simp

lemma match_placeholders_one_brace:
  assumes "u \<noteq> []" and "v \<noteq> []" and "\<forall>c\<in>set u. \<not> is_brace c" and "\<forall>c\<in>set v. \<not> is_brace c"
    and "is_brace b"
  shows "match_placeholders (placeholder_token (u @ b # v)) = []"
proof -
  obtain u0 u' where u: "u = u0 # u'" using assms(1) by (cases u) auto
  obtain v0 v' where v: "v = v0 # v'" using assms(2) by (cases v) auto
  have nu: "CHR ''{'' \<notin> set u" and nv: "CHR ''{'' \<notin> set v"
    using assms(3,4) by (auto simp: is_brace_def)
  have u0: "CHR ''{'' \<noteq> u0" using nu u by auto
  have v0: "CHR ''{'' \<noteq> v0" "CHR ''}'' \<noteq> v0" using assms(4) v by (auto simp: is_brace_def)
  have tail: "match_placeholders (v @ ''}}'') = []"
    using match_placeholders_no_open [OF nv, of "''}}''"] by simp
  have mid: "match_placeholders (b # v @ ''}}'') = []"
  proof (cases "b = CHR ''{''")
    case True
    have "match_placeholder_at (b # v0 # v' @ ''}}'') = None"
      using v0(1) by (rule match_placeholder_at_second)
    then show ?thesis using tail v by (simp del: match_placeholder_at.simps)
  next
    case False
    then have "match_placeholder_at (b # v @ ''}}'') = None"
      by (simp add: match_placeholder_at_not_open)
    then show ?thesis using tail by (simp del: match_placeholder_at.simps)
  qed
  have inner: "match_placeholders (u @ b # v @ ''}}'') = []"
    using match_placeholders_no_open [OF nu, of "b # v @ ''}}''"] mid by simp
  have first: "match_placeholder_at (CHR ''{'' # CHR ''{'' # u @ b # v @ ''}}'') = None"
  proof -
    have tw: "takeWhile (\<lambda>c. \<not> is_brace c) (u @ b # v @ ''}}'') = u"
      using assms(3,5) by (simp add: takeWhile_append2)
    have dw: "dropWhile (\<lambda>c. \<not> is_brace c) (u @ b # v @ ''}}'') = b # v @ ''}}''"
      using assms(3,5) by (simp add: dropWhile_append2)
    have t2: "take 2 (b # v @ ''}}'') \<noteq> ''}}''" using v v0 by auto
    show ?thesis using t2 by (simp add: tw dw)
  qed
  have second: "match_placeholder_at (CHR ''{'' # u @ b # v @ ''}}'') = None"
    using u u0 by simp
  have "match_placeholders (CHR ''{'' # CHR ''{'' # u @ b # v @ ''}}'') = []"
    using first second inner by (simp del: match_placeholder_at.simps)
  then show ?thesis by (simp add: placeholder_token_def)
qed

section \<open>Facts about the two engines\<close>

lemma parse_html_empty: "parse_html [] = []"
  by (simp add: parse_html_def emit_chars_def)

lemma directive_free_live: "directive_free n \<Longrightarrow> live_directive_free n"
  by (induction n rule: directive_free.induct) (auto simp: list_all_iff)

lemma processRepeats_append:
  "processRepeats (xs @ ys) data =
     (fst (processRepeats xs data) @ fst (processRepeats ys data),
      snd (processRepeats xs data) @ snd (processRepeats ys data))"
  by (induction xs) (simp_all split: prod.splits)

lemma expand_node_not_array:
  assumes "map_of attrs ''ts-repeat'' = Some arrayPath"
    and "\<forall>collection. getNestedValue data arrayPath \<noteq> Some (JArr collection)"
    and "getNestedValue data arrayPath \<noteq> Some JArrayPrototype"
  shows "expand_node (Element tag attrs kids) data = ([], [repeat_warning arrayPath])"
  using assms by (auto split: option.splits jsval.splits)

lemma expand_node_empty_array:
  assumes "map_of attrs ''ts-repeat'' = Some arrayPath"
    and "getNestedValue data arrayPath = Some (JArr [])"
  shows "expand_node (Element tag attrs kids) data = ([], [])"
  using assms by (simp add: parse_html_empty)

lemma processRepeats_remove:
  assumes "expand_node n data = ([], ws)"
  shows "processRepeats (pre @ n # post) data =
           (fst (processRepeats pre data) @ fst (processRepeats post data),
            snd (processRepeats pre data) @ ws @ snd (processRepeats post data))"
  by (simp add: processRepeats_append assms split: prod.splits)

lemma expand_node_scope:
  assumes "map_of attrs ''ts-repeat'' = Some arrayPath"
    and "getNestedValue data arrayPath = getNestedValue data' arrayPath"
  shows "expand_node (Element tag attrs kids) data = expand_node (Element tag attrs kids) data'"
  using assms by simp

lemma processRepeats_directive_free:
  "list_all directive_free ns \<Longrightarrow> processRepeats ns data = (ns, [])"
  and "directive_free n \<Longrightarrow> expand_node n data = ([n], [])"
  and "expand_items itemTemplate items = expand_items itemTemplate items"
  by (induction ns data and n data and itemTemplate items rule: processRepeats_expand_node_expand_items.induct)
    (auto split: prod.splits)





lemma move_ts_src_id: "ts_src_free n \<Longrightarrow> move_ts_src n = n"
  by (induction n rule: move_ts_src.induct) (auto simp: list_all_iff map_idI Let_def)


lemma processRepeats_test_id:
  "list_all directive_free ns \<Longrightarrow> processRepeats_test ns d = Some ns"
  and "replace_repeat n d = replace_repeat n d"
  and "repeat_items n items = repeat_items n items"
  and "detached_repeats ns d \<or> \<not> detached_repeats ns d"
proof (induction ns d and n d and n items and ns d
    rule: processRepeats_test_replace_repeat_repeat_items_detached_repeats.induct)
  case (3 tag attrs kids ns contextData)
  then show ?case by (auto simp del: replace_repeat.simps)
qed auto

lemma replace_defined_no_token:
  "match_placeholders (children_html parent nodes) = [] \<Longrightarrow> replace_defined parent data nodes = Some nodes"
  by (simp add: replace_defined_def)

lemma replace_repeat_nothing:
  assumes "map_of attrs ''ts-repeat'' = Some repeatKey"
    and "\<forall>itemData items. repeat_data contextData repeatKey \<noteq> JArr (itemData # items)"
  shows "replace_repeat (Element tag attrs kids) contextData = Some []"
  using assms by (auto split: jsval.splits list.splits)

text \<open>
  In the version with top-level repeats, a directive at the top level of its container whose
  collection is not an array is removed with one warning, and one whose collection is the
  empty array is removed without any; the nodes around it are expanded as if it were absent.
\<close>

lemma top_level_directive_not_array:
  assumes "map_of attrs ''ts-repeat'' = Some arrayPath"
    and "\<forall>collection. getNestedValue data arrayPath \<noteq> Some (JArr collection)"
    and "getNestedValue data arrayPath \<noteq> Some JArrayPrototype"
  shows "processRepeats (pre @ Element tag attrs kids # post) data =
           (fst (processRepeats (pre @ post) data),
            snd (processRepeats pre data) @ repeat_warning arrayPath # snd (processRepeats post data))"
  using processRepeats_remove [OF expand_node_not_array [OF assms, where tag=tag and kids=kids],
      where pre=pre and post=post]
  by (simp add: processRepeats_append)

lemma top_level_directive_empty_array:
  assumes "map_of attrs ''ts-repeat'' = Some arrayPath"
    and "getNestedValue data arrayPath = Some (JArr [])"
  shows "processRepeats (pre @ Element tag attrs kids # post) data = processRepeats (pre @ post) data"
  using processRepeats_remove [OF expand_node_empty_array [OF assms, where tag=tag and kids=kids],
      where pre=pre and post=post]
  by (simp add: processRepeats_append)

section \<open>Properties of placeholder substitution\<close>

lemma processSimplePlaceholders_no_token:
  "match_placeholders html = [] \<Longrightarrow> processSimplePlaceholders html data = html"
  by (simp add: processSimplePlaceholders_def)

text \<open>
  An absent key at the first placeholder of the markup: the token is replaced by the empty
  string, and the remaining tokens are processed as if the token had never been there.
\<close>

lemma processSimplePlaceholders_absent:
  assumes "CHR ''{'' \<notin> set pre" and "k \<noteq> []" and "\<forall>c\<in>set k. \<not> is_brace c"
    and "getNestedValue data (trim k) = None"
  shows "processSimplePlaceholders (pre @ placeholder_token k @ post) data
           = processSimplePlaceholders (pre @ post) data"
proof -
  have v: "substitute_text data (trim k) = []"
    using assms(4) by (simp add: substitute_text_def)
  have "replace_placeholder data (pre @ placeholder_token k @ post) (placeholder_token k) = pre @ post"
    using replace_placeholder_first [OF assms(1), of data k post] by (simp add: v)
  then show ?thesis
    by (simp add: processSimplePlaceholders_def match_placeholders_no_open [OF assms(1)]
        match_placeholders_token [OF assms(2,3)])
qed

lemma ts_render_absent:
  assumes "CHR ''{'' \<notin> set pre" and "k \<noteq> []" and "\<forall>c\<in>set k. \<not> is_brace c"
    and "getNestedValue data k = None"
  shows "ts_render (pre @ placeholder_token k @ post) data = ts_render (pre @ post) data"
proof -
  have p: "placeholder_token k = CHR ''{'' # (''{'' @ k @ ''}}'')"
    by (simp add: placeholder_token_def)
  have "render_placeholder data (pre @ placeholder_token k @ post) (placeholder_token k) = pre @ post"
    using js_replace_first [OF p assms(1), of "[]" post] assms(4)
    by (simp add: render_placeholder_def slice_2_2_token substitute_text_def)
  then show ?thesis
    by (simp add: ts_render_def match_placeholders_no_open [OF assms(1)]
        match_placeholders_token [OF assms(2,3)])
qed

text \<open>
  C6 (as amended). The token list is taken once from the incoming markup, and each token
  replaces the first occurrence of its own text in the current string. Let every brace of the
  markup belong to a placeholder, let no value have a replacement pattern of \<^verbatim>\<open>replace\<close>, and
  let no value but that of the last placeholder have an opening brace. Then every placeholder
  is replaced by its own value and nothing else changes: the value of the last placeholder
  may itself be a placeholder, and it is inserted without being scanned. When no value at all
  has an opening brace, running the substitution a second time on the output returns the
  output unchanged.
\<close>

theorem substitution_single_pass:
  assumes "json_value data" and "list_all segment_ok segs" and "single_pass_values data segs"
  shows "processSimplePlaceholders (markup_of segs) data = concat (map (segment_output data) segs)
       \<and> (list_all (segment_inert data) segs \<longrightarrow>
            processSimplePlaceholders (processSimplePlaceholders (markup_of segs) data) data
              = processSimplePlaceholders (markup_of segs) data)"
proof -
  have once: "processSimplePlaceholders (markup_of segs) data = concat (map (segment_output data) segs)"
    using substitute_segments [OF assms(2,3), of "[]"] by (simp add: processSimplePlaceholders_def)
  have "processSimplePlaceholders (concat (map (segment_output data) segs)) data
          = concat (map (segment_output data) segs)"
    if inert: "list_all (segment_inert data) segs"
  proof -
    have "match_placeholders (concat (map (segment_output data) segs)) = []"
      by (rule match_placeholders_no_open_end [OF segments_output_no_open [OF assms(2) inert]])
    then show ?thesis by (simp add: processSimplePlaceholders_def)
  qed
  with once show ?thesis by simp
qed

theorem substitution_single_pass_witness:
  "json_value (JObj [(''name'', JStr ''Ann''), (''a'', JStr ''{{name}}'')])
   \<and> list_all segment_ok [Literal ''<p>'', Placeholder '' name '', Literal ''</p>'', Placeholder ''a'', Literal ''!'']
   \<and> single_pass_values (JObj [(''name'', JStr ''Ann''), (''a'', JStr ''{{name}}'')])
        [Literal ''<p>'', Placeholder '' name '', Literal ''</p>'', Placeholder ''a'', Literal ''!'']
   \<and> processSimplePlaceholders ''<p>{{ name }}</p>{{a}}!''
        (JObj [(''name'', JStr ''Ann''), (''a'', JStr ''{{name}}'')]) = ''<p>Ann</p>{{name}}!''
   \<and> list_all (segment_inert (JObj [(''name'', JStr ''Ann'')]))
        [Literal ''<p>'', Placeholder '' name '', Literal ''</p>'', Placeholder ''gone'']
   \<and> processSimplePlaceholders ''<p>{{ name }}</p>{{gone}}'' (JObj [(''name'', JStr ''Ann'')]) = ''<p>Ann</p>''
   \<and> processSimplePlaceholders ''<p>Ann</p>'' (JObj [(''name'', JStr ''Ann'')]) = ''<p>Ann</p>''"
proof -
  let ?segs = "[Literal ''<p>'', Placeholder '' name '', Literal ''</p>'', Placeholder ''a'', Literal ''!'']"
  let ?data = "JObj [(''name'', JStr ''Ann''), (''a'', JStr ''{{name}}'')]"
  let ?segs' = "[Literal ''<p>'', Placeholder '' name '', Literal ''</p>'', Placeholder ''gone'']"
  let ?data' = "JObj [(''name'', JStr ''Ann'')]"
  have js: "json_value ?data" "json_value ?data'" by simp_all
  have ok: "list_all segment_ok ?segs" "list_all segment_ok ?segs'" by (simp_all add: is_brace_def)
  have pass: "single_pass_values ?data ?segs" by code_simp
  have inert: "list_all (segment_inert ?data') ?segs'" by code_simp
  have m: "markup_of ?segs = ''<p>{{ name }}</p>{{a}}!''" "markup_of ?segs' = ''<p>{{ name }}</p>{{gone}}''"
    by (simp_all add: markup_of_def placeholder_token_def)
  have c: "concat (map (segment_output ?data) ?segs) = ''<p>Ann</p>{{name}}!''"
    "concat (map (segment_output ?data') ?segs') = ''<p>Ann</p>''"
    by code_simp+
  note t1 = substitution_single_pass [OF js(1) ok(1) pass]
  note t2 = substitution_single_pass [OF js(2) ok(2) segment_inert_single_pass [OF inert]]
  have r1: "processSimplePlaceholders ''<p>{{ name }}</p>{{a}}!'' ?data = ''<p>Ann</p>{{name}}!''"
    using conjunct1 [OF t1] by (simp only: m c)
  have r2: "processSimplePlaceholders ''<p>{{ name }}</p>{{gone}}'' ?data' = ''<p>Ann</p>''"
    using conjunct1 [OF t2] by (simp only: m c)
  have "processSimplePlaceholders (processSimplePlaceholders (markup_of ?segs') ?data') ?data'
          = processSimplePlaceholders (markup_of ?segs') ?data'"
    using conjunct2 [OF t2] inert by blast
  then have r3: "processSimplePlaceholders ''<p>Ann</p>'' ?data' = ''<p>Ann</p>''"
    by (simp only: m r2)
  from js(1) ok(1) pass r1 inert r2 r3 show ?thesis by blast
qed

text \<open>
  The claim as it was stated fails, and each condition of the amended claim is needed.
  A value that is itself a placeholder is inserted and then hit by the next replacement, which
  leaves the original token behind: \<^verbatim>\<open>{{a}}{{b}}\<close> with \<^verbatim>\<open>a = "{{b}}"\<close>, \<^verbatim>\<open>b = "X"\<close> gives \<^verbatim>\<open>X{{b}}\<close>.
  With a value that has no brace at all, \<^verbatim>\<open>{{{{a}}b}}\<close> with \<^verbatim>\<open>a = "x"\<close> gives \<^verbatim>\<open>{{xb}}\<close>, which a
  second run empties. The value \<^verbatim>\<open>$'\<close> inserts the text behind the match: \<^verbatim>\<open>{{a}}{{b}}\<close> gives
  \<^verbatim>\<open>X{{b}}\<close> and then \<^verbatim>\<open>XX\<close>. And values of one brace each join into a placeholder:
  \<^verbatim>\<open>{{a}}{{a}}{{b}}{{c}}{{c}}\<close> with \<^verbatim>\<open>a = "{"\<close>, \<^verbatim>\<open>b = "k"\<close>, \<^verbatim>\<open>c = "}"\<close> gives \<^verbatim>\<open>{{k}}\<close>, then nothing.
\<close>

theorem substitution_single_pass_counterexample:
  "processSimplePlaceholders ''{{a}}{{b}}'' (JObj [(''a'', JStr ''{{b}}''), (''b'', JStr ''X'')]) = ''X{{b}}''
   \<and> processSimplePlaceholders ''{{{{a}}b}}'' (JObj [(''a'', JStr ''x'')]) = ''{{xb}}''
   \<and> processSimplePlaceholders (processSimplePlaceholders ''{{{{a}}b}}'' (JObj [(''a'', JStr ''x'')]))
         (JObj [(''a'', JStr ''x'')]) = []
   \<and> processSimplePlaceholders ''{{a}}{{b}}''
         (JObj [(''a'', JStr [CHR ''$'', CHR 0x27]), (''b'', JStr ''X'')]) = ''X{{b}}''
   \<and> processSimplePlaceholders ''X{{b}}''
         (JObj [(''a'', JStr [CHR ''$'', CHR 0x27]), (''b'', JStr ''X'')]) = ''XX''
   \<and> processSimplePlaceholders ''{{a}}{{a}}{{b}}{{c}}{{c}}''
         (JObj [(''a'', JStr ''{''), (''b'', JStr ''k''), (''c'', JStr ''}'')]) = ''{{k}}''
   \<and> processSimplePlaceholders ''{{k}}''
         (JObj [(''a'', JStr ''{''), (''b'', JStr ''k''), (''c'', JStr ''}'')]) = []"
  by code_simp

text \<open>
  C10 (as amended). The scanner returns only tokens \<^verbatim>\<open>{{s}}\<close> whose interior \<open>s\<close> is a non-empty
  run of characters that are not braces, so \<^verbatim>\<open>{{}}\<close> and a doubled-brace token with a brace in
  its interior are never recognised as a placeholder. Markup in which the scanner recognises
  nothing is returned unchanged for every scope: so are \<^verbatim>\<open>{{}}\<close> and every doubled-brace token
  whose interior is one brace between two non-empty runs without braces, as \<^verbatim>\<open>{{a{b}}\<close> and
  \<^verbatim>\<open>{{a}b}}\<close>. (A well-formed placeholder lying inside a doubled-brace token is still
  substituted.)
\<close>

theorem scanner_recognises_plain_tokens_only:
  "(\<forall>p\<in>set (match_placeholders html).
      \<exists>k. p = placeholder_token k \<and> k \<noteq> [] \<and> (\<forall>c\<in>set k. \<not> is_brace c))
   \<and> (match_placeholders html = [] \<longrightarrow> processSimplePlaceholders html data = html)
   \<and> processSimplePlaceholders ''{{}}'' data = ''{{}}''
   \<and> (u \<noteq> [] \<and> v \<noteq> [] \<and> (\<forall>c\<in>set u. \<not> is_brace c) \<and> (\<forall>c\<in>set v. \<not> is_brace c) \<and> is_brace b
        \<longrightarrow> processSimplePlaceholders (placeholder_token (u @ b # v)) data
              = placeholder_token (u @ b # v))"
proof -
  have form: "\<forall>p\<in>set (match_placeholders html).
      \<exists>k. p = placeholder_token k \<and> k \<noteq> [] \<and> (\<forall>c\<in>set k. \<not> is_brace c)"
    using match_placeholders_form [of _ html] by (simp add: placeholder_token_def)
  have "match_placeholders ''{{}}'' = []" by code_simp
  then have a: "processSimplePlaceholders ''{{}}'' data = ''{{}}''"
    by (rule processSimplePlaceholders_no_token)
  have b: "processSimplePlaceholders (placeholder_token (u @ b # v)) data = placeholder_token (u @ b # v)"
    if "u \<noteq> []" "v \<noteq> []" "\<forall>c\<in>set u. \<not> is_brace c" "\<forall>c\<in>set v. \<not> is_brace c" "is_brace b"
    by (rule processSimplePlaceholders_no_token [OF match_placeholders_one_brace [OF that]])
  from form a b show ?thesis
    using processSimplePlaceholders_no_token [of html data] by blast
qed

theorem scanner_recognises_plain_tokens_only_witness:
  "match_placeholders ''x{{}}y{{ k }}'' = [placeholder_token '' k '']
   \<and> match_placeholders ''{{}}{{a{b}}'' = []
   \<and> processSimplePlaceholders ''{{}}{{a{b}}'' (JObj [(''a'', JStr ''v'')]) = ''{{}}{{a{b}}''
   \<and> processSimplePlaceholders ''{{a}b}}'' (JObj [(''a'', JStr ''v'')]) = ''{{a}b}}''"
proof -
  have m: "match_placeholders ''{{}}{{a{b}}'' = []" by code_simp
  have k: "match_placeholders ''x{{}}y{{ k }}'' = [placeholder_token '' k '']" by code_simp
  have t: "placeholder_token (''a'' @ CHR ''}'' # ''b'') = ''{{a}b}}''"
    by (simp add: placeholder_token_def)
  have "processSimplePlaceholders (placeholder_token (''a'' @ CHR ''}'' # ''b'')) (JObj [(''a'', JStr ''v'')])
          = placeholder_token (''a'' @ CHR ''}'' # ''b'')"
    using scanner_recognises_plain_tokens_only
      [of "''{{}}{{a{b}}''" "JObj [(''a'', JStr ''v'')]" "''a''" "''b''" "CHR ''}''"]
    by (simp add: is_brace_def)
  with m k t show ?thesis
    using scanner_recognises_plain_tokens_only
      [of "''{{}}{{a{b}}''" "JObj [(''a'', JStr ''v'')]" "''a''" "''b''" "CHR ''}''"]
    by simp
qed

text \<open>
  As first stated, the claim lets every doubled-brace token with a brace in its interior
  pass unchanged. The token \<^verbatim>\<open>{{{a}}}\<close> has the interior \<^verbatim>\<open>{a}\<close>, and the scanner finds \<^verbatim>\<open>{{a}}\<close>
  inside it: with \<^verbatim>\<open>a = "x"\<close> the output is \<^verbatim>\<open>{x}\<close>.
\<close>

theorem doubled_brace_token_counterexample:
  "(\<exists>c\<in>set ''{a}''. is_brace c)
   \<and> processSimplePlaceholders (placeholder_token ''{a}'') (JObj [(''a'', JStr ''x'')]) = ''{x}''
   \<and> processSimplePlaceholders (placeholder_token ''{a}'') (JObj [(''a'', JStr ''x'')])
        \<noteq> placeholder_token ''{a}''"
  by code_simp

section \<open>Properties of repeat expansion\<close>

text \<open>
  C1. Scope isolation, on the example of the specification: root data with \<^verbatim>\<open>title = "Page"\<close> and
  \<^verbatim>\<open>rows = [{x: 1}]\<close>, and a directive on \<^verbatim>\<open>rows\<close> whose interior is \<^verbatim>\<open>{{title}}\<close>. The version with
  top-level repeats renders the interior empty. \<^verbatim>\<open>test.js\<close> substitutes the placeholders defined
  at the root over the whole template before it expands anything, and renders \<^verbatim>\<open>Page\<close>. With a
  repeat inside a repeat, both versions resolve \<^verbatim>\<open>{{name}}\<close> of the inner item against the outer
  item, which defines \<^verbatim>\<open>name\<close> too.
\<close>

theorem scope_isolation_evaluated:
  "processTemplate_test ''<div ts-repeat='rows'>{{title}}</div>''
      (JObj [(''title'', JStr ''Page''), (''rows'', JArr [JObj [(''x'', JNum 1)]])])
     = Some ''<div>Page</div>''
   \<and> processTemplate ''<div ts-repeat='rows'>{{title}}</div>''
      (JObj [(''title'', JStr ''Page''), (''rows'', JArr [JObj [(''x'', JNum 1)]])])
     = (''<div></div>'', [])
   \<and> processTemplate_test ''<div ts-repeat='groups'><p ts-repeat='items'>{{name}}</p></div>''
      (JObj [(''groups'', JArr [JObj [(''name'', JStr ''A''),
                                      (''items'', JArr [JObj [(''name'', JStr ''i1'')]])]])])
     = Some ''<div><p>A</p></div>''
   \<and> processTemplate ''<div ts-repeat='groups'><p ts-repeat='items'>{{name}}</p></div>''
      (JObj [(''groups'', JArr [JObj [(''name'', JStr ''A''),
                                      (''items'', JArr [JObj [(''name'', JStr ''i1'')]])]])])
     = (''<div><p>A</p></div>'', [])"
  by code_simp

text \<open>
  C2. Nested repeats, on the example of the specification: groups \<^verbatim>\<open>A\<close> with items \<^verbatim>\<open>[1, 2]\<close> and
  \<^verbatim>\<open>B\<close> with items \<^verbatim>\<open>[3]\<close>, an outer directive on \<^verbatim>\<open>groups\<close> with the header \<^verbatim>\<open>{{name}}\<close> and an inner
  directive on \<^verbatim>\<open>items\<close>. The version with top-level repeats deletes every directive attribute
  text from the markup of the outer element, the inner one included, so the inner element is
  never expanded: each group gets exactly one item copy. \<^verbatim>\<open>test.js\<close> removes the attribute of
  the copy only and gives group \<^verbatim>\<open>A\<close> two copies and group \<^verbatim>\<open>B\<close> one, in order.
\<close>

theorem nested_repeats_evaluated:
  "strip_repeat_attrs
      (outerHTML (Element ''div'' [(''ts-repeat'', ''groups'')]
                    [Element ''h2'' [] [Text ''{{name}}''],
                     Element ''p'' [(''ts-repeat'', ''items'')] [Text ''item'']]))
     = ''<div><h2>{{name}}</h2><p>item</p></div>''
   \<and> processTemplate ''<div ts-repeat='groups'><h2>{{name}}</h2><p ts-repeat='items'>item</p></div>''
      (JObj [(''groups'', JArr [JObj [(''name'', JStr ''A''), (''items'', JArr [JNum 1, JNum 2])],
                                JObj [(''name'', JStr ''B''), (''items'', JArr [JNum 3])]])])
     = (''<div><h2>A</h2><p>item</p></div><div><h2>B</h2><p>item</p></div>'', [])
   \<and> processTemplate_test ''<div ts-repeat='groups'><h2>{{name}}</h2><p ts-repeat='items'>item</p></div>''
      (JObj [(''groups'', JArr [JObj [(''name'', JStr ''A''), (''items'', JArr [JNum 1, JNum 2])],
                                JObj [(''name'', JStr ''B''), (''items'', JArr [JNum 3])]])])
     = Some ''<div><h2>A</h2><p>item</p><p>item</p></div><div><h2>B</h2><p>item</p></div>''"
  by code_simp

text \<open>
  C3. A placeholder whose key is absent. \<^verbatim>\<open>test.js\<close> replaces a placeholder only when its value
  is defined, so the token stays in the output; \<^verbatim>\<open>ts.render\<close> and the version with top-level
  repeats replace it by the empty string.
\<close>

theorem absent_placeholder_evaluated:
  "processTemplate_test ''<p>{{missing}}</p>'' (JObj []) = Some ''<p>{{missing}}</p>''
   \<and> processTemplate ''<p>{{missing}}</p>'' (JObj []) = (''<p></p>'', [])
   \<and> ts_render ''<p>{{missing}}</p>'' (JObj []) = ''<p></p>''"
  by code_simp

text \<open>
  C4. A directive whose collection is not an array. At the top level the version with
  top-level repeats removes the element and warns; \<^verbatim>\<open>test.js\<close> removes it and writes nothing.
  Inside another repeat the version with top-level repeats has already deleted the directive
  attribute: the element stays in the output and there is no warning, while \<^verbatim>\<open>test.js\<close> removes
  it.
\<close>

theorem invalid_collection_evaluated:
  "processTemplate ''<i ts-repeat='items'>y</i>z'' (JObj [(''items'', JNum 5)])
     = (''z'', [repeat_warning ''items''])
   \<and> processTemplate_test ''<i ts-repeat='items'>y</i>z'' (JObj [(''items'', JNum 5)]) = Some ''z''
   \<and> processTemplate ''<div ts-repeat='groups'><p ts-repeat='items'>x</p></div>z''
      (JObj [(''groups'', JArr [JObj [(''items'', JStr ''scalar'')]])])
     = (''<div><p>x</p></div>z'', [])
   \<and> processTemplate_test ''<div ts-repeat='groups'><p ts-repeat='items'>x</p></div>z''
      (JObj [(''groups'', JArr [JObj [(''items'', JStr ''scalar'')]])])
     = Some ''<div></div>z''"
  by code_simp

text \<open>
  C5. A directive whose collection is the empty array. At the top level both versions replace
  the element by nothing. Inside another repeat the version with top-level repeats keeps one
  copy of the element, its directive attribute deleted; \<^verbatim>\<open>test.js\<close> keeps none.
\<close>

theorem empty_collection_evaluated:
  "processTemplate ''a<i ts-repeat='none'>y</i>z'' (JObj [(''none'', JArr [])]) = (''az'', [])
   \<and> processTemplate_test ''a<i ts-repeat='none'>y</i>z'' (JObj [(''none'', JArr [])]) = Some ''az''
   \<and> processTemplate ''<ul ts-repeat='groups'><li ts-repeat='items'>x</li></ul>z''
      (JObj [(''groups'', JArr [JObj [(''items'', JArr [])]])])
     = (''<ul><li>x</li></ul>z'', [])
   \<and> processTemplate_test ''<ul ts-repeat='groups'><li ts-repeat='items'>x</li></ul>z''
      (JObj [(''groups'', JArr [JObj [(''items'', JArr [])]])])
     = Some ''<ul></ul>z''"
  by code_simp





text \<open>
  C8 (as amended). For a template whose parsed tree has no directive and whose serialisation
  has no placeholder token, the engine returns the browser's serialisation of the parsed tree
  and writes no warning (\<^verbatim>\<open>test.js\<close> does the same when the tree has no \<^verbatim>\<open>ts-src\<close> attribute
  either). The output therefore equals the input exactly when the input is already written
  the way the browser serialises its tree. The statement is made for the tree, whatever
  markup it was parsed from.
\<close>

theorem round_trip_is_serialisation:
  assumes "list_all directive_free nodes"
    and "match_placeholders (innerHTML nodes) = []"
  shows "processTemplate_tree nodes data = (innerHTML nodes, [])
       \<and> (list_all ts_src_free nodes \<longrightarrow> processTemplate_test_tree nodes data = Some nodes)"
proof -
  have a: "processTemplate_tree nodes data = (innerHTML nodes, [])"
    by (simp add: processTemplate_tree_def processRepeats_directive_free(1) [OF assms(1)]
        processSimplePlaceholders_no_token [OF assms(2)])
  have b: "processTemplate_test_tree nodes data = Some nodes" if "list_all ts_src_free nodes"
  proof -
    have "map move_ts_src nodes = nodes"
      using that by (simp add: list_all_iff move_ts_src_id map_idI)
    moreover have "replace_defined ''div'' data nodes = Some nodes"
      using assms(2) by (simp add: replace_defined_no_token innerHTML_def)
    ultimately show ?thesis
      by (simp add: processTemplate_test_tree_def processRepeats_test_id(1) [OF assms(1)])
  qed
  from a b show ?thesis by simp
qed

theorem round_trip_is_serialisation_witness:
  "parse_html ''<ul><li>One</li><li>Two &amp; three</li></ul><br>''
     = [Element ''ul'' [] [Element ''li'' [] [Text ''One''], Element ''li'' [] [Text ''Two & three'']],
        Element ''br'' [] []]
   \<and> innerHTML [Element ''ul'' [] [Element ''li'' [] [Text ''One''], Element ''li'' [] [Text ''Two & three'']],
                 Element ''br'' [] []]
       = ''<ul><li>One</li><li>Two &amp; three</li></ul><br>''
   \<and> processTemplate ''<ul><li>One</li><li>Two &amp; three</li></ul><br>'' JNull
       = (''<ul><li>One</li><li>Two &amp; three</li></ul><br>'', [])
   \<and> processTemplate_test ''<ul><li>One</li><li>Two &amp; three</li></ul><br>'' JNull
       = Some ''<ul><li>One</li><li>Two &amp; three</li></ul><br>''"
proof -
  let ?t = "''<ul><li>One</li><li>Two &amp; three</li></ul><br>''"
  let ?nodes = "[Element ''ul'' [] [Element ''li'' [] [Text ''One''], Element ''li'' [] [Text ''Two & three'']],
                 Element ''br'' [] []]"
  have p: "parse_html ?t = ?nodes" by code_simp
  have d: "list_all directive_free ?nodes" by simp
  have f: "list_all ts_src_free ?nodes" by simp
  have s: "innerHTML ?nodes = ?t" by code_simp
  have m: "match_placeholders (innerHTML ?nodes) = []" unfolding s by code_simp
  note t = round_trip_is_serialisation [OF d m, of JNull]
  have a: "processTemplate ?t JNull = (?t, [])"
    using conjunct1 [OF t] by (simp only: processTemplate_def p s)
  have "processTemplate_test_tree ?nodes JNull = Some ?nodes"
    using conjunct2 [OF t] f by blast
  then have b: "processTemplate_test ?t JNull = Some ?t"
    by (simp only: processTemplate_test_def p s option.case)
  from p s a b show ?thesis by blast
qed

text \<open>
  The claim as first stated fails on markup that the browser writes differently from the way
  it was given: an ampersand in text comes back as a character reference and a self-closed
  \<^verbatim>\<open>br\<close> as a plain start tag, in both versions, and \<^verbatim>\<open>test.js\<close> moves \<^verbatim>\<open>ts-src\<close> besides.
\<close>

theorem round_trip_counterexample:
  "list_all directive_free (parse_html ''Fish & chips<br/>'')
   \<and> match_placeholders ''Fish & chips<br/>'' = []
   \<and> fst (processTemplate ''Fish & chips<br/>'' JNull) = ''Fish &amp; chips<br>''
   \<and> processTemplate_test ''Fish & chips<br/>'' JNull = Some ''Fish &amp; chips<br>''
   \<and> fst (processTemplate ''Fish & chips<br/>'' JNull) \<noteq> ''Fish & chips<br/>''"
  by code_simp
end
